theory Spec2Isabelle
  imports Main "HOL-Library.Sublist"
begin

section \<open>Python string operations used by the parsers\<close>

text \<open>
  A Python \<open>str\<close> is modelled as a \<open>string\<close> whose characters are the code points
  below 256 (one \<open>char\<close> per code point).  On that range \<open>str.lower\<close> changes the
  letters A-Z and the Latin-1 capitals, \<open>str.strip\<close> removes the twelve white-space
  code points listed below, and \<open>str.splitlines\<close> breaks at eight of them.
\<close>

datatype py_error = IndexError | AttributeError

definition whitespace :: "char list" where
  "whitespace = [CHR 0x09, CHR 0x0A, CHR 0x0B, CHR 0x0C, CHR 0x0D, CHR 0x1C, CHR 0x1D,
     CHR 0x1E, CHR 0x1F, CHR 0x20, CHR 0x85, CHR 0xA0]"

definition isspace :: "char \<Rightarrow> bool" where
  "isspace c = (c \<in> set whitespace)"

definition str_lstrip :: "string \<Rightarrow> string" where
  "str_lstrip s = dropWhile isspace s"

definition str_rstrip :: "string \<Rightarrow> string" where
  "str_rstrip s = rev (dropWhile isspace (rev s))"

definition str_strip :: "string \<Rightarrow> string" where
  "str_strip s = str_rstrip (str_lstrip s)"

text \<open>\<open>s.rstrip(chars)\<close>: every trailing character that occurs in \<open>chars\<close> is removed.\<close>

definition str_rstrip_chars :: "string \<Rightarrow> string \<Rightarrow> string" where
  "str_rstrip_chars chars s = rev (dropWhile (\<lambda>c. c \<in> set chars) (rev s))"

definition lower_char :: "char \<Rightarrow> char" where
  "lower_char c =
     (let n = (of_char c :: nat)
      in if (65 \<le> n \<and> n \<le> 90) \<or> (192 \<le> n \<and> n \<le> 222 \<and> n \<noteq> 215)
         then char_of (n + 32) else c)"

definition str_lower :: "string \<Rightarrow> string" where
  "str_lower s = map lower_char s"

text \<open>\<open>s.startswith(p)\<close> is \<open>prefix p s\<close>.\<close>

abbreviation startswith :: "string \<Rightarrow> string \<Rightarrow> bool" where
  "startswith s p \<equiv> prefix p s"

text \<open>\<open>p in s\<close> for strings: \<open>p\<close> occurs in \<open>s\<close> as a contiguous run.\<close>

fun str_contains :: "string \<Rightarrow> string \<Rightarrow> bool" where
  "str_contains p [] = (p = [])"
| "str_contains p (c # cs) = (prefix p (c # cs) \<or> str_contains p cs)"

text \<open>\<open>s.split(sep)\<close> for a one-character separator, and \<open>sep.join(parts)\<close>.\<close>

fun str_split :: "char \<Rightarrow> string \<Rightarrow> string list" where
  "str_split sep [] = [[]]"
| "str_split sep (c # cs) =
     (if c = sep then [] # str_split sep cs
      else (case str_split sep cs of
              [] \<Rightarrow> [[c]]
            | p # ps \<Rightarrow> (c # p) # ps))"

fun str_join :: "string \<Rightarrow> string list \<Rightarrow> string" where
  "str_join sep [] = []"
| "str_join sep [p] = p"
| "str_join sep (p # q # ps) = p @ sep @ str_join sep (q # ps)"

text \<open>\<open>s.split(sep, 1)\<close>: at most one split, at the first separator.\<close>

definition str_split1 :: "char \<Rightarrow> string \<Rightarrow> string list" where
  "str_split1 sep s =
     (if sep \<in> set s
      then [takeWhile (\<lambda>c. c \<noteq> sep) s, tl (dropWhile (\<lambda>c. c \<noteq> sep) s)]
      else [s])"

text \<open>List indexing with a constant non-negative index; out of range raises.\<close>

definition py_nth :: "'a list \<Rightarrow> nat \<Rightarrow> py_error + 'a" where
  "py_nth xs i = (if i < length xs then Inr (xs ! i) else Inl IndexError)"

text \<open>
  \<open>re.split(pat, s, flags=re.IGNORECASE)\<close> for a literal, non-empty, lower-case
  pattern: the text is cut at every non-overlapping occurrence, found left to right,
  compared without regard to case.  The first argument collects the current part,
  reversed.
\<close>

function re_split_ci :: "string \<Rightarrow> string \<Rightarrow> string \<Rightarrow> string list" where
  "re_split_ci pat cur [] = [rev cur]"
| "re_split_ci pat cur (c # cs) =
     (if prefix pat (str_lower (c # cs))
      then rev cur # re_split_ci pat [] (drop (length pat - 1) cs)
      else re_split_ci pat (c # cur) cs)"
  by pat_completeness auto
termination
  by (relation "measure (\<lambda>(pat, cur, s). length s)") auto

definition ac3_pattern :: string where
  "ac3_pattern = ''(ac3 embedded:''"

definition re_split_ac3 :: "string \<Rightarrow> string list" where
  "re_split_ac3 s = re_split_ci ac3_pattern [] s"

text \<open>
  \<open>text.splitlines()\<close>: lines end at LF, CR, CR LF, VT, FF, FS, GS, RS and NEL; the
  line ends are not kept, and a final line end opens no further line.
\<close>

definition linebreaks :: "char list" where
  "linebreaks = [CHR 0x0A, CHR 0x0B, CHR 0x0C, CHR 0x0D, CHR 0x1C, CHR 0x1D, CHR 0x1E,
     CHR 0x85]"

fun splitlines_from :: "string \<Rightarrow> string \<Rightarrow> string list" where
  "splitlines_from cur [] = (if cur = [] then [] else [rev cur])"
| "splitlines_from cur [c] =
     (if c \<in> set linebreaks then [rev cur] else [rev (c # cur)])"
| "splitlines_from cur (c # d # cs) =
     (if c = CHR 0x0D \<and> d = CHR 0x0A then rev cur # splitlines_from [] cs
      else if c \<in> set linebreaks then rev cur # splitlines_from [] (d # cs)
      else splitlines_from (c # cur) (d # cs))"

definition str_splitlines :: "string \<Rightarrow> string list" where
  "str_splitlines text = splitlines_from [] text"

section \<open>Codec tables (codecs\_parser.py)\<close>

definition video_codecs :: "(string \<times> string) list" where
  "video_codecs =
     [(''h264/AVC'', ''.h264''),
      (''h265/HEVC'', ''.h265''),
      (''MPEG1'', ''.m1v''),
      (''MPEG2'', ''.m2v''),
      (''VC-1'', ''.vc1'')]"

definition audio_codecs :: "(string \<times> string) list" where
  "audio_codecs =
     [(''AC3'', ''.ac3''),
      (''DTS Master Audio'', ''.dtsma''),
      (''DTS'', ''.dts''),
      (''E-AC3'', ''eac3''),
      (''FLAC Audio'', ''.flac''),
      (''RAW/PCM'', ''.pcm''),
      (''TrueHD/AC3'', ''.thd+ac3'')]"

definition audio_codec_title_names :: "(string \<times> string) list" where
  "audio_codec_title_names =
     [(''DTS Audio'', ''DTS''),
      (''DTS-HD Master Audio'', ''DTS-HD.MA''),
      (''Dolby Digital Audio'', ''DD''),
      (''Dolby TrueHD Audio'', ''TrueHD''),
      (''FLAC Audio'', ''FLAC'')]"

definition sub_codecs :: "(string \<times> string) list" where
  "sub_codecs =
     [(''Subtitle (PGS)'', ''.sup''),
      (''Subtitle (DVD)'', ''.sup'')]"

definition chapter_codecs :: "(string \<times> string) list" where
  "chapter_codecs = [(''Chapters'', ''.txt'')]"

text \<open>
  \<open>{**video, **audio, **sub, **chapter}\<close>: on a key present in several tables the
  later table wins, which is \<open>++\<close> on maps.
\<close>

definition codec_ext :: "string \<rightharpoonup> string" where
  "codec_ext =
     map_of video_codecs ++ map_of audio_codecs ++ map_of sub_codecs ++ map_of chapter_codecs"

definition is_video :: "string \<Rightarrow> bool" where
  "is_video codec = (codec \<in> fst ` set video_codecs)"

definition is_audio :: "string \<Rightarrow> bool" where
  "is_audio codec = (codec \<in> fst ` set audio_codecs)"

definition is_sub :: "string \<Rightarrow> bool" where
  "is_sub codec = (codec \<in> fst ` set sub_codecs)"

definition is_chapter :: "string \<Rightarrow> bool" where
  "is_chapter codec = (codec \<in> fst ` set chapter_codecs)"

text \<open>The lookups return \<open>False\<close> for an unknown name; that value is \<open>None\<close> here.\<close>

definition get_codec_ext :: "string \<Rightarrow> string option" where
  "get_codec_ext codec = (if codec \<notin> dom codec_ext then None else codec_ext codec)"

definition get_audio_codec_title_name :: "string \<Rightarrow> string option" where
  "get_audio_codec_title_name codec =
     (if codec \<notin> fst ` set audio_codec_title_names then None
      else map_of audio_codec_title_names codec)"

section \<open>Truncation settings (paste\_parser.py, module level)\<close>

text \<open>
  The three module-level settings, read from the process environment when the module is
  loaded.  \<open>os.environ.get(k)\<close> is \<open>None\<close> for an unset variable, and
  \<open>None.strip()\<close> raises \<open>AttributeError\<close>; only the third read supplies a
  default.
\<close>

record config =
  IGNORE_AFTER_LINE :: string
  IGNORE_AFTER_LINE_METHOD :: string
  IGNORE_UNTIL_BLANK_LINE_PREFIXES :: "string list"

definition load_config :: "(string \<rightharpoonup> string) \<Rightarrow> py_error + config" where
  "load_config env =
     (case env ''IGNORE_AFTER_LINE'' of
        None \<Rightarrow> Inl AttributeError
      | Some after_line \<Rightarrow>
          (case env ''IGNORE_AFTER_LINE_METHOD'' of
             None \<Rightarrow> Inl AttributeError
           | Some method \<Rightarrow>
               Inr \<lparr> IGNORE_AFTER_LINE = str_strip after_line,
                     IGNORE_AFTER_LINE_METHOD = str_strip method,
                     IGNORE_UNTIL_BLANK_LINE_PREFIXES =
                       map str_strip
                         (str_split CHR '','' 
                            (str_strip
                               (case env ''IGNORE_UNTIL_BLANK_LINE_PREFIXES'' of
                                  None \<Rightarrow> []
                                | Some v \<Rightarrow> v))) \<rparr>))"

definition isIgnoreAfterLine :: "config \<Rightarrow> string \<Rightarrow> bool" where
  "isIgnoreAfterLine cfg l =
     (if IGNORE_AFTER_LINE_METHOD cfg = ''equals'' then IGNORE_AFTER_LINE cfg = l
      else if IGNORE_AFTER_LINE_METHOD cfg = ''contains''
        then str_contains (IGNORE_AFTER_LINE cfg) l
      else False)"

text \<open>
  Lines 80-88 of \<open>parse\<close>: the prefixes are consulted only when the list is non-empty
  and its first entry is not the empty string.
\<close>

definition ignore_until_blank_hit :: "config \<Rightarrow> string \<Rightarrow> bool" where
  "ignore_until_blank_hit cfg l =
     (IGNORE_UNTIL_BLANK_LINE_PREFIXES cfg \<noteq> []
      \<and> hd (IGNORE_UNTIL_BLANK_LINE_PREFIXES cfg) \<noteq> []
      \<and> list_ex (\<lambda>x. startswith (str_lower (str_strip l)) x)
           (IGNORE_UNTIL_BLANK_LINE_PREFIXES cfg))"

section \<open>The paste parser (paste\_parser.py)\<close>

datatype BDInfoType = BD_QUICK_SUMMARY | BD_PLAYLIST_REPORT

datatype Section = QUICK_SUMMARY | MEDIAINFO | PLAYLIST_REPORT | EAC3TO_LOG

datatype Section2 = PLAYLIST_VIDEO | PLAYLIST_AUDIO | PLAYLIST_SUBTITLES

datatype Section3 = PLAYLIST_INNER_VIDEO | PLAYLIST_INNER_AUDIO

text \<open>
  The track formatter object handed to the constructor.  Its class is not part of the
  parser; the four methods that \<open>parse\<close> calls are parameters, taken as total
  functions on strings.  An empty result of the two playlist formatters is the falsy
  value that \<open>parse\<close> tests for.
\<close>

record bdinfo_parser =
  format_track_name :: "string \<Rightarrow> string"
  format_video_track_name :: "string \<Rightarrow> string"
  playlist_report_format_video_track_name :: "string \<Rightarrow> string"
  playlist_report_format_audio_track_name :: "string \<Rightarrow> string"

text \<open>The \<open>bdinfo\<close> dictionary: three lists, and the key \<open>type\<close> once it is set.\<close>

record bdinfo =
  video :: "string list"
  audio :: "string list"
  subtitle :: "string list"
  bd_type :: "BDInfoType option"

text \<open>The local variables of \<open>parse\<close>.\<close>

record pstate =
  bdinfo :: bdinfo
  mediainfo :: "string list"
  eac3to :: "string list list"
  eac3to_index :: int
  sect :: "Section option"
  sect2 :: "Section2 option"
  sect3 :: "Section3 option"
  ignore_next_lines :: bool
  did_first_mediainfo :: bool

definition initial_state :: pstate where
  "initial_state =
     \<lparr> bdinfo = \<lparr> video = [], audio = [], subtitle = [], bd_type = None \<rparr>,
       mediainfo = [],
       eac3to = [],
       eac3to_index = - 1,
       sect = None,
       sect2 = None,
       sect3 = None,
       ignore_next_lines = False,
       did_first_mediainfo = False \<rparr>"

definition append_video :: "string \<Rightarrow> pstate \<Rightarrow> pstate" where
  "append_video t st = st\<lparr>bdinfo := (bdinfo st)\<lparr>video := video (bdinfo st) @ [t]\<rparr>\<rparr>"

definition append_audio :: "string \<Rightarrow> pstate \<Rightarrow> pstate" where
  "append_audio t st = st\<lparr>bdinfo := (bdinfo st)\<lparr>audio := audio (bdinfo st) @ [t]\<rparr>\<rparr>"

definition append_subtitle :: "string \<Rightarrow> pstate \<Rightarrow> pstate" where
  "append_subtitle t st =
     st\<lparr>bdinfo := (bdinfo st)\<lparr>subtitle := subtitle (bdinfo st) @ [t]\<rparr>\<rparr>"

definition set_type :: "BDInfoType \<Rightarrow> pstate \<Rightarrow> pstate" where
  "set_type t st = st\<lparr>bdinfo := (bdinfo st)\<lparr>bd_type := Some t\<rparr>\<rparr>"

text \<open>Lines 94-109: the section is chosen from the trimmed, lower-cased line.\<close>

definition determine_section :: "pstate \<Rightarrow> string \<Rightarrow> pstate" where
  "determine_section st l2 =
     (if startswith l2 ''quick summary''
        then set_type BD_QUICK_SUMMARY (st\<lparr>sect := Some QUICK_SUMMARY\<rparr>)
      else if startswith l2 ''playlist report''
        then set_type BD_PLAYLIST_REPORT (st\<lparr>sect := Some PLAYLIST_REPORT\<rparr>)
      else if startswith l2 ''eac3to v''
        then st\<lparr>sect := Some EAC3TO_LOG,
                eac3to := eac3to st @ [[]],
                eac3to_index := eac3to_index st + 1\<rparr>
      else if startswith l2 ''general''
        then (if did_first_mediainfo st then st\<lparr>sect := None\<rparr>
              else st\<lparr>sect := Some MEDIAINFO, did_first_mediainfo := True\<rparr>)
      else st)"

definition compat_prefix :: string where
  "compat_prefix = ''Compatibility Track / Dolby Digital Audio / ''"

text \<open>\<open>l.split(":", 1)[1]\<close>.\<close>

definition after_colon :: "string \<Rightarrow> py_error + string" where
  "after_colon l = py_nth (str_split1 CHR '':'' l) 1"

text \<open>
  Lines 112-142: a line of the Quick Summary.  \<open>l.split("(")[0]\<close> is the head of
  the split, which always has a first part.
\<close>

definition quick_summary_line ::
  "bdinfo_parser \<Rightarrow> pstate \<Rightarrow> string \<Rightarrow> string \<Rightarrow> py_error + pstate" where
  "quick_summary_line bp st l l2 =
     (if startswith l2 ''video:'' then
        (case after_colon l of
           Inl e \<Rightarrow> Inl e
         | Inr track_name \<Rightarrow> Inr (append_video (format_video_track_name bp track_name) st))
      else if startswith l2 ''audio:'' then
        (case after_colon l of
           Inl e \<Rightarrow> Inl e
         | Inr t \<Rightarrow>
             (let audio_name = str_strip t in
              if str_contains ''ac3 embedded'' (str_lower audio_name) then
                (let audio_parts = re_split_ac3 audio_name in
                 case py_nth audio_parts 0 of
                   Inl e \<Rightarrow> Inl e
                 | Inr part0 \<Rightarrow>
                     (let st1 = append_audio (format_track_name bp part0) st in
                      case py_nth audio_parts 1 of
                        Inl e \<Rightarrow> Inl e
                      | Inr part1 \<Rightarrow>
                          (let compat_track =
                                 compat_prefix @ str_rstrip_chars '')'' (str_strip part1)
                           in Inr (append_audio (format_track_name bp compat_track) st1))))
              else
                (let l' = (if CHR ''('' \<in> set l then hd (str_split CHR ''('' l) else l);
                     l'' = str_strip l'
                 in case after_colon l'' of
                      Inl e \<Rightarrow> Inl e
                    | Inr t' \<Rightarrow> Inr (append_audio (format_track_name bp t') st))))
      else if startswith l2 ''subtitle:'' then
        (case after_colon l of
           Inl e \<Rightarrow> Inl e
         | Inr t \<Rightarrow> Inr (append_subtitle (format_track_name bp t) st))
      else Inr st)"

text \<open>
  Lines 146-200: a line of the Playlist Report.  The \<open>continue\<close> of line 161 ends
  the work on the line, and nothing follows the \<open>if\<close> chain, so it is the
  branch that returns the state as it is.
\<close>

definition playlist_heading :: "pstate \<Rightarrow> string \<Rightarrow> pstate" where
  "playlist_heading st l2 =
     (if startswith l2 ''video:'' then st\<lparr>sect2 := Some PLAYLIST_VIDEO\<rparr>
      else if startswith l2 ''audio:'' then st\<lparr>sect2 := Some PLAYLIST_AUDIO\<rparr>
      else if startswith l2 ''subtitles:'' then st\<lparr>sect2 := Some PLAYLIST_SUBTITLES\<rparr>
      else st)"

definition playlist_report_line ::
  "bdinfo_parser \<Rightarrow> pstate \<Rightarrow> string \<Rightarrow> string \<Rightarrow> py_error + pstate" where
  "playlist_report_line bp st0 l l2 =
     (let st = playlist_heading st0 l2 in
      if startswith l2 ''-----'' then
        (if sect2 st = Some PLAYLIST_VIDEO then Inr (st\<lparr>sect3 := Some PLAYLIST_INNER_VIDEO\<rparr>)
         else if sect2 st = Some PLAYLIST_AUDIO
           then Inr (st\<lparr>sect3 := Some PLAYLIST_INNER_AUDIO\<rparr>)
         else Inr st)
      else if startswith l ''-'' then Inr st
      else if sect2 st = Some PLAYLIST_VIDEO \<and> sect3 st = Some PLAYLIST_INNER_VIDEO then
        (let track_name = playlist_report_format_video_track_name bp l
         in Inr (if track_name \<noteq> [] then append_video track_name st else st))
      else if sect2 st = Some PLAYLIST_AUDIO \<and> sect3 st = Some PLAYLIST_INNER_AUDIO then
        (let track_name = playlist_report_format_audio_track_name bp l;
             st1 = (if track_name \<noteq> [] then append_audio track_name st else st)
         in if str_contains ''ac3 embedded'' (str_lower l) then
              (case py_nth (re_split_ac3 l) 1 of
                 Inl e \<Rightarrow> Inl e
               | Inr part1 \<Rightarrow>
                   (let compat_track =
                          compat_prefix
                          @ str_rstrip_chars '')''
                              (str_strip (str_join ''/'' (butlast (str_split CHR ''/'' part1))))
                    in Inr (append_audio (format_track_name bp compat_track) st1)))
            else Inr st1)
      else Inr st)"

text \<open>
  Line 209, \<open>eac3to[eac3to_index].append(l)\<close>: a negative index counts from the end
  of the list, and an index outside the list raises.
\<close>

definition eac3to_append :: "pstate \<Rightarrow> string \<Rightarrow> py_error + pstate" where
  "eac3to_append st l =
     (let n = int (length (eac3to st));
          i = eac3to_index st;
          j = (if i < 0 then i + n else i)
      in if 0 \<le> j \<and> j < n
         then Inr (st\<lparr>eac3to := (eac3to st)[nat j := eac3to st ! nat j @ [l]]\<rparr>)
         else Inl IndexError)"

definition eac3to_log_line :: "pstate \<Rightarrow> string \<Rightarrow> py_error + pstate" where
  "eac3to_log_line st l =
     (if startswith l ''Done.'' then Inr (st\<lparr>sect := None\<rparr>) else eac3to_append st l)"

text \<open>Lines 90-209: the work on a line that is neither blank nor ignored.\<close>

definition classify_line :: "bdinfo_parser \<Rightarrow> pstate \<Rightarrow> string \<Rightarrow> py_error + pstate" where
  "classify_line bp st0 l =
     (let l2 = str_lower (str_strip l);
          st = determine_section st0 l2
      in case sect st of
           Some QUICK_SUMMARY \<Rightarrow> quick_summary_line bp st l l2
         | Some PLAYLIST_REPORT \<Rightarrow> playlist_report_line bp st l l2
         | Some MEDIAINFO \<Rightarrow> Inr (st\<lparr>mediainfo := mediainfo st @ [l]\<rparr>)
         | Some EAC3TO_LOG \<Rightarrow> eac3to_log_line st l
         | None \<Rightarrow> Inr st)"

text \<open>One pass of the loop body (lines 67-209): it breaks, or goes on with a new state.\<close>

datatype flow = Break | Next pstate

definition loop_body ::
  "config \<Rightarrow> bdinfo_parser \<Rightarrow> pstate \<Rightarrow> string \<Rightarrow> py_error + flow" where
  "loop_body cfg bp st l =
     (if isIgnoreAfterLine cfg l then Inr Break
      else if str_strip l = [] then Inr (Next (st\<lparr>ignore_next_lines := False\<rparr>))
      else if ignore_next_lines st then Inr (Next st)
      else
        (let st1 = (if ignore_until_blank_hit cfg l then st\<lparr>ignore_next_lines := True\<rparr>
                    else st)
         in case classify_line bp st1 l of
              Inl e \<Rightarrow> Inl e
            | Inr st2 \<Rightarrow> Inr (Next st2)))"

fun parse_loop ::
  "config \<Rightarrow> bdinfo_parser \<Rightarrow> pstate \<Rightarrow> string list \<Rightarrow> py_error + pstate" where
  "parse_loop cfg bp st [] = Inr st"
| "parse_loop cfg bp st (l # ls) =
     (case loop_body cfg bp st l of
        Inl e \<Rightarrow> Inl e
      | Inr Break \<Rightarrow> Inr st
      | Inr (Next st') \<Rightarrow> parse_loop cfg bp st' ls)"

text \<open>\<open>parse\<close> on the lines of the text, and on the text; the result is the triple
  \<open>bdinfo, mediainfo, eac3to\<close>.\<close>

definition parse_lines ::
  "config \<Rightarrow> bdinfo_parser \<Rightarrow> string list
     \<Rightarrow> py_error + (bdinfo \<times> string list \<times> string list list)" where
  "parse_lines cfg bp lines =
     (case parse_loop cfg bp initial_state lines of
        Inl e \<Rightarrow> Inl e
      | Inr st \<Rightarrow> Inr (bdinfo st, mediainfo st, eac3to st))"

definition parse ::
  "config \<Rightarrow> bdinfo_parser \<Rightarrow> string
     \<Rightarrow> py_error + (bdinfo \<times> string list \<times> string list list)" where
  "parse cfg bp text = parse_lines cfg bp (str_splitlines text)"

section \<open>Vocabulary for the properties\<close>

text \<open>
  A line opens a section when its trimmed, lower-cased form starts with one of the four
  section words.  A line is classified when the loop body passes it on to the section
  logic of an unflagged state with the flag left as it is: it does not trigger the
  cutoff, is not blank and hits no skip prefix.  A transcoder log consists of a header,
  body lines and a closing line.  \<open>index_is_last\<close> says that \<open>eac3to_index\<close>
  points at the last list of \<open>eac3to\<close>.
\<close>

definition opens_section :: "string \<Rightarrow> bool" where
  "opens_section l =
     (let l2 = str_lower (str_strip l)
      in startswith l2 ''quick summary'' \<or> startswith l2 ''playlist report''
         \<or> startswith l2 ''eac3to v'' \<or> startswith l2 ''general'')"

definition classified :: "config \<Rightarrow> string \<Rightarrow> bool" where
  "classified cfg l =
     (\<not> isIgnoreAfterLine cfg l \<and> str_strip l \<noteq> [] \<and> \<not> ignore_until_blank_hit cfg l)"

definition log_body_line :: "config \<Rightarrow> string \<Rightarrow> bool" where
  "log_body_line cfg l = (classified cfg l \<and> \<not> opens_section l \<and> \<not> startswith l ''Done.'')"

definition log_header :: "config \<Rightarrow> string \<Rightarrow> bool" where
  "log_header cfg l = (classified cfg l \<and> startswith (str_lower (str_strip l)) ''eac3to v'')"

definition log_end :: "config \<Rightarrow> string \<Rightarrow> bool" where
  "log_end cfg l = (classified cfg l \<and> startswith l ''Done.'')"

definition index_is_last :: "pstate \<Rightarrow> bool" where
  "index_is_last st = (eac3to_index st = int (length (eac3to st)) - 1)"

section \<open>Sample collaborators, settings and inputs\<close>

text \<open>
  A formatter that returns its argument, settings with both truncation mechanisms off
  (the variables set to empty strings), settings with a cutoff text and with skip
  prefixes, and a few states and texts.  They serve to run the parser on concrete
  inputs.
\<close>

definition plain_formatter :: bdinfo_parser where
  "plain_formatter =
     \<lparr> format_track_name = (\<lambda>s. s),
       format_video_track_name = (\<lambda>s. s),
       playlist_report_format_video_track_name = (\<lambda>s. s),
       playlist_report_format_audio_track_name = (\<lambda>s. s) \<rparr>"

definition no_truncation :: config where
  "no_truncation =
     \<lparr> IGNORE_AFTER_LINE = [],
       IGNORE_AFTER_LINE_METHOD = [],
       IGNORE_UNTIL_BLANK_LINE_PREFIXES = [[]] \<rparr>"

definition cutoff_END :: config where
  "cutoff_END =
     \<lparr> IGNORE_AFTER_LINE = ''END'',
       IGNORE_AFTER_LINE_METHOD = ''contains'',
       IGNORE_UNTIL_BLANK_LINE_PREFIXES = [[]] \<rparr>"

definition skip_after_disc_size :: config where
  "skip_after_disc_size =
     \<lparr> IGNORE_AFTER_LINE = [],
       IGNORE_AFTER_LINE_METHOD = [],
       IGNORE_UNTIL_BLANK_LINE_PREFIXES = [''disc size''] \<rparr>"

definition skip_with_empty_first :: config where
  "skip_with_empty_first =
     \<lparr> IGNORE_AFTER_LINE = [],
       IGNORE_AFTER_LINE_METHOD = [],
       IGNORE_UNTIL_BLANK_LINE_PREFIXES = [[], ''disc size''] \<rparr>"

definition compat_example_line :: string where
  "compat_example_line =
     ''Audio: DTS-HD Master Audio 5.1 (ac3 embedded: Dolby Digital Audio 2.0 / 48 kHz / 192 kbps)''"

definition in_quick_summary :: pstate where
  "in_quick_summary = initial_state\<lparr>sect := Some QUICK_SUMMARY\<rparr>"

definition in_playlist_video :: pstate where
  "in_playlist_video =
     initial_state\<lparr>sect := Some PLAYLIST_REPORT, sect2 := Some PLAYLIST_VIDEO,
       sect3 := Some PLAYLIST_INNER_VIDEO\<rparr>"

definition playlist_with_subtitles :: "string list" where
  "playlist_with_subtitles =
     [''PLAYLIST REPORT:'',
      ''VIDEO:'',
      ''-----'',
      ''MPEG-4 AVC Video  24000 kbps  1080p'',
      ''AUDIO:'',
      ''-----'',
      ''DTS-HD Master Audio  English  3000 kbps  5.1'',
      ''SUBTITLES:'',
      ''-----'',
      ''Presentation Graphics  English  30 kbps'']"

definition two_general_blocks :: "string list" where
  "two_general_blocks =
     [''General'', ''Format : Matroska'', ''Quick Summary:'', ''General'', ''Format : AVI'']"

definition after_first_block :: pstate where
  "after_first_block =
     initial_state
       \<lparr> bdinfo := \<lparr>video = [], audio = [], subtitle = [], bd_type = Some BD_QUICK_SUMMARY\<rparr>,
         mediainfo := [''General'', ''Format : Matroska''],
         sect := Some QUICK_SUMMARY,
         did_first_mediainfo := True \<rparr>"

section \<open>Facts about the string operations\<close>

lemma prefix_first_char:
  "prefix (a # p) s \<Longrightarrow> a \<noteq> b \<Longrightarrow> \<not> prefix (b # q) s"
  by (cases s) auto

lemma str_lstrip_nonspace:
  "s \<noteq> [] \<Longrightarrow> \<not> isspace (hd s) \<Longrightarrow> str_lstrip s = s"
  by (cases s) (simp_all add: str_lstrip_def)

lemma str_rstrip_append_nonspace:
  assumes "p \<noteq> []" "\<not> isspace (last p)"
  shows "prefix p (str_rstrip (p @ r))"
proof -
  have keep: "dropWhile isspace (rev p) = rev p"
    using assms by (cases "rev p") (auto simp: last_rev hd_rev[symmetric] dest: arg_cong[where f=hd])
  show ?thesis
    by (auto simp: str_rstrip_def dropWhile_append keep)
qed

lemma prefix_str_strip:
  assumes "prefix p l" "p \<noteq> []" "\<not> isspace (hd p)" "\<not> isspace (last p)"
  shows "prefix p (str_strip l)"
proof -
  from assms(1) obtain r where l: "l = p @ r" by (auto simp: prefix_def)
  have "hd l = hd p" "l \<noteq> []" using assms(2) l by auto
  then have "str_lstrip l = l" using assms(3) by (simp add: str_lstrip_nonspace)
  then show ?thesis
    using str_rstrip_append_nonspace[OF assms(2,4), of r] l by (simp add: str_strip_def)
qed

lemma prefix_str_lower: "prefix p s \<Longrightarrow> prefix (str_lower p) (str_lower s)"
  by (auto simp: prefix_def str_lower_def)

lemma prefix_lower_strip:
  "prefix p l \<Longrightarrow> p \<noteq> [] \<Longrightarrow> \<not> isspace (hd p) \<Longrightarrow> \<not> isspace (last p)
     \<Longrightarrow> prefix (str_lower p) (str_lower (str_strip l))"
  by (rule prefix_str_lower) (rule prefix_str_strip)

lemma lower_Done: "str_lower ''Done.'' = ''done.''"
  by code_simp

lemma lower_dash: "str_lower ''-'' = ''-''"
  by code_simp

lemma Done_line_lower:
  "startswith l ''Done.'' \<Longrightarrow> startswith (str_lower (str_strip l)) ''done.''"
  using prefix_lower_strip[of "''Done.''" l]
  by (simp add: lower_Done isspace_def whitespace_def)

lemma dash_line_lower:
  "startswith l ''-'' \<Longrightarrow> startswith (str_lower (str_strip l)) ''-''"
  using prefix_lower_strip[of "''-''" l]
  by (simp add: lower_dash isspace_def whitespace_def)

lemma lower_char_colon: "lower_char c = CHR '':'' \<Longrightarrow> c = CHR '':''"
proof (rule ccontr)
  assume h: "lower_char c = CHR '':''" and n: "c \<noteq> CHR '':''"
  let ?n = "of_char c :: nat"
  from h n have rng: "(65 \<le> ?n \<and> ?n \<le> 90) \<or> (192 \<le> ?n \<and> ?n \<le> 222 \<and> ?n \<noteq> 215)"
    and eq: "char_of (?n + 32) = CHR '':''"
    by (auto simp: lower_char_def Let_def split: if_splits)
  from eq have "of_char (char_of (?n + 32)) = (of_char (CHR '':'') :: nat)" by simp
  then have "(?n + 32) mod 256 = 58" by simp
  with rng show False by auto
qed

lemma str_lower_colon: "CHR '':'' \<in> set (str_lower s) \<Longrightarrow> CHR '':'' \<in> set s"
proof -
  assume "CHR '':'' \<in> set (str_lower s)"
  then obtain c where c: "c \<in> set s" "lower_char c = CHR '':''"
    by (auto simp: str_lower_def)
  from c(2) have "c = CHR '':''" by (rule lower_char_colon)
  with c(1) show ?thesis by simp
qed

lemma set_str_strip: "set (str_strip s) \<subseteq> set s"
proof
  fix x assume "x \<in> set (str_strip s)"
  then have "x \<in> set (dropWhile isspace (rev (dropWhile isspace s)))"
    by (simp add: str_strip_def str_rstrip_def str_lstrip_def)
  then have "x \<in> set (rev (dropWhile isspace s))" by (rule set_dropWhileD)
  then have "x \<in> set (dropWhile isspace s)" by simp
  then show "x \<in> set s" by (rule set_dropWhileD)
qed

lemma colon_in_line:
  assumes "startswith (str_lower (str_strip l)) (p @ '':'')"
  shows "CHR '':'' \<in> set l"
proof -
  from assms have "CHR '':'' \<in> set (str_lower (str_strip l))"
    by (auto simp: prefix_def)
  then show ?thesis using str_lower_colon set_str_strip by blast
qed

lemma after_colon_ok:
  "CHR '':'' \<in> set l \<Longrightarrow> after_colon l = Inr (tl (dropWhile (\<lambda>c. c \<noteq> CHR '':'') l))"
  by (simp add: after_colon_def str_split1_def py_nth_def)

lemma str_contains_prefix: "str_contains p (p @ b)"
proof (cases "p @ b")
  case Nil
  then show ?thesis by simp
next
  case (Cons c cs)
  have "prefix p (p @ b)" by simp
  with Cons show ?thesis by simp
qed

lemma str_contains_mid: "str_contains p (a @ p @ b)"
  by (induction a) (simp_all add: str_contains_prefix)

lemma str_lower_append: "str_lower (a @ b) = str_lower a @ str_lower b"
  by (simp add: str_lower_def)

text \<open>
  The split at the marker: when the pattern first matches at the end of \<open>pre\<close>,
  the first part is \<open>pre\<close> and the split goes on behind the match; a text without
  a match is returned whole.
\<close>

lemma re_split_ci_first:
  assumes "pat \<noteq> []" "str_lower m = pat"
    and "\<forall>i<length pre. \<not> prefix pat (str_lower (drop i (pre @ m @ post)))"
  shows "re_split_ci pat cur (pre @ m @ post) = (rev cur @ pre) # re_split_ci pat [] post"
  using assms(3)
proof (induction pre arbitrary: cur)
  case Nil
  from assms(1,2) obtain c cs where m: "m = c # cs"
    by (cases m) (auto simp: str_lower_def)
  have len: "length pat - 1 = length cs"
    using assms(2) m by (auto simp: str_lower_def)
  have "str_lower (m @ post) = pat @ str_lower post"
    using assms(2) by (simp add: str_lower_append)
  then have "prefix pat (str_lower (c # cs @ post))"
    using m by simp
  then show ?case using m len by simp
next
  case (Cons a pre)
  from Cons.prems have z: "\<not> prefix pat (str_lower (a # pre @ m @ post))"
    by force
  have "\<forall>i<length pre. \<not> prefix pat (str_lower (drop i (pre @ m @ post)))"
  proof (intro allI impI)
    fix i assume "i < length pre"
    then have "Suc i < length (a # pre)" by simp
    with Cons.prems have "\<not> prefix pat (str_lower (drop (Suc i) ((a # pre) @ m @ post)))"
      by blast
    then show "\<not> prefix pat (str_lower (drop i (pre @ m @ post)))" by simp
  qed
  from Cons.IH[OF this, of "a # cur"] z show ?case by simp
qed

lemma re_split_ci_none:
  "\<forall>i<length s. \<not> prefix pat (str_lower (drop i s)) \<Longrightarrow>
     re_split_ci pat cur s = [rev cur @ s]"
proof (induction s arbitrary: cur)
  case Nil
  then show ?case by simp
next
  case (Cons a s)
  from Cons.prems have z: "\<not> prefix pat (str_lower (a # s))" by force
  have "\<forall>i<length s. \<not> prefix pat (str_lower (drop i s))"
  proof (intro allI impI)
    fix i assume "i < length s"
    then have "Suc i < length (a # s)" by simp
    with Cons.prems have "\<not> prefix pat (str_lower (drop (Suc i) (a # s)))" by blast
    then show "\<not> prefix pat (str_lower (drop i s))" by simp
  qed
  from Cons.IH[OF this, of "a # cur"] z show ?case by simp
qed

lemma re_split_ci_nonempty: "re_split_ci pat cur s \<noteq> []"
  by (induction pat cur s rule: re_split_ci.induct) auto

lemma lower_marker: "str_lower m = ''(ac3 embedded:'' \<Longrightarrow>
    str_contains ''ac3 embedded'' (str_lower (pre @ m @ post))"
proof -
  assume "str_lower m = ''(ac3 embedded:''"
  then have "str_lower (pre @ m @ post)
      = (str_lower pre @ ''('') @ ''ac3 embedded'' @ ('':'' @ str_lower post)"
    by (simp add: str_lower_append)
  then show ?thesis by (simp only: str_contains_mid)
qed

section \<open>What each part of the loop body changes\<close>

lemmas bdinfo_updates = append_video_def append_audio_def append_subtitle_def set_type_def

lemma quick_summary_line_frame:
  "quick_summary_line bp st l l2 = Inr st' \<Longrightarrow> st' = st\<lparr>bdinfo := bdinfo st'\<rparr>"
  by (auto simp: quick_summary_line_def Let_def bdinfo_updates split: if_splits sum.splits)

lemma playlist_report_line_frame:
  "playlist_report_line bp st l l2 = Inr st' \<Longrightarrow>
     st' = st\<lparr>bdinfo := bdinfo st', sect2 := sect2 st', sect3 := sect3 st'\<rparr>"
  by (auto simp: playlist_report_line_def playlist_heading_def Let_def bdinfo_updates
      split: if_splits sum.splits)

lemma eac3to_log_line_frame:
  "eac3to_log_line st l = Inr st' \<Longrightarrow>
     st' = st\<lparr>eac3to := eac3to st', sect := sect st'\<rparr> \<and> (sect st' = sect st \<or> sect st' = None)"
  by (auto simp: eac3to_log_line_def eac3to_append_def Let_def split: if_splits)

lemma determine_section_lists:
  "video (bdinfo (determine_section st l2)) = video (bdinfo st)
   \<and> audio (bdinfo (determine_section st l2)) = audio (bdinfo st)
   \<and> subtitle (bdinfo (determine_section st l2)) = subtitle (bdinfo st)
   \<and> mediainfo (determine_section st l2) = mediainfo st
   \<and> sect2 (determine_section st l2) = sect2 st
   \<and> sect3 (determine_section st l2) = sect3 st
   \<and> ignore_next_lines (determine_section st l2) = ignore_next_lines st"
  by (simp add: determine_section_def bdinfo_updates)

lemma classify_line_unfold:
  "classify_line bp st l =
     (case sect (determine_section st (str_lower (str_strip l))) of
        Some QUICK_SUMMARY \<Rightarrow>
          quick_summary_line bp (determine_section st (str_lower (str_strip l))) l
            (str_lower (str_strip l))
      | Some PLAYLIST_REPORT \<Rightarrow>
          playlist_report_line bp (determine_section st (str_lower (str_strip l))) l
            (str_lower (str_strip l))
      | Some MEDIAINFO \<Rightarrow>
          Inr ((determine_section st (str_lower (str_strip l)))
                \<lparr>mediainfo := mediainfo (determine_section st (str_lower (str_strip l))) @ [l]\<rparr>)
      | Some EAC3TO_LOG \<Rightarrow> eac3to_log_line (determine_section st (str_lower (str_strip l))) l
      | None \<Rightarrow> Inr (determine_section st (str_lower (str_strip l))))"
  by (simp add: classify_line_def Let_def)

lemma loop_body_cases:
  assumes "loop_body cfg bp st l = Inr (Next st')"
  obtains (blank) "st' = st\<lparr>ignore_next_lines := False\<rparr>"
  | (skip) "st' = st"
  | (hit) "classify_line bp (st\<lparr>ignore_next_lines := True\<rparr>) l = Inr st'"
  | (plain) "classify_line bp st l = Inr st'"
  using assms by (auto simp: loop_body_def Let_def split: if_splits sum.splits)

section \<open>Codec lookups\<close>

text \<open>
  Claim C9.  A name recorded in one of the four codec tables is mapped by
  \<open>get_codec_ext\<close> to exactly the extension recorded with it, and a name in none of
  the tables to the not-found value; \<open>get_audio_codec_title_name\<close> does the same on
  its own table.  The match is exact (a name that differs in case is not found), and
  the tables are constants.
\<close>

theorem codec_lookup_exact:
  "((codec, ext) \<in> set video_codecs \<union> set audio_codecs \<union> set sub_codecs \<union> set chapter_codecs
      \<longrightarrow> get_codec_ext codec = Some ext)
   \<and> (codec \<notin> fst ` (set video_codecs \<union> set audio_codecs \<union> set sub_codecs
                       \<union> set chapter_codecs)
      \<longrightarrow> get_codec_ext codec = None)
   \<and> ((codec, short) \<in> set audio_codec_title_names
      \<longrightarrow> get_audio_codec_title_name codec = Some short)
   \<and> (codec \<notin> fst ` set audio_codec_title_names
      \<longrightarrow> get_audio_codec_title_name codec = None)"
proof (intro conjI impI)
  assume "(codec, ext)
    \<in> set video_codecs \<union> set audio_codecs \<union> set sub_codecs \<union> set chapter_codecs"
  then show "get_codec_ext codec = Some ext"
    by (auto simp: get_codec_ext_def codec_ext_def video_codecs_def audio_codecs_def
        sub_codecs_def chapter_codecs_def)
next
  assume "codec
    \<notin> fst ` (set video_codecs \<union> set audio_codecs \<union> set sub_codecs \<union> set chapter_codecs)"
  then show "get_codec_ext codec = None"
    by (auto simp: get_codec_ext_def codec_ext_def dom_map_of_conv_image_fst)
next
  assume "(codec, short) \<in> set audio_codec_title_names"
  then show "get_audio_codec_title_name codec = Some short"
    by (auto simp: get_audio_codec_title_name_def audio_codec_title_names_def)
next
  assume "codec \<notin> fst ` set audio_codec_title_names"
  then show "get_audio_codec_title_name codec = None"
    by (simp add: get_audio_codec_title_name_def)
qed

theorem codec_lookup_exact_witness:
  "get_codec_ext ''E-AC3'' = Some ''eac3''
   \<and> get_codec_ext ''e-ac3'' = None
   \<and> get_audio_codec_title_name ''Dolby Digital Audio'' = Some ''DD''
   \<and> get_audio_codec_title_name ''AC3'' = None"
proof -
  have a: "(''E-AC3'', ''eac3'')
      \<in> set video_codecs \<union> set audio_codecs \<union> set sub_codecs \<union> set chapter_codecs"
    by (simp add: audio_codecs_def)
  have b: "''e-ac3''
      \<notin> fst ` (set video_codecs \<union> set audio_codecs \<union> set sub_codecs \<union> set chapter_codecs)"
    by (simp add: video_codecs_def audio_codecs_def sub_codecs_def chapter_codecs_def)
  have c: "(''Dolby Digital Audio'', ''DD'') \<in> set audio_codec_title_names"
    by (simp add: audio_codec_title_names_def)
  have d: "''AC3'' \<notin> fst ` set audio_codec_title_names"
    by (simp add: audio_codec_title_names_def)
  note t1 = codec_lookup_exact [THEN conjunct1, rule_format, OF a]
  note t2 = codec_lookup_exact [THEN conjunct2, THEN conjunct1, rule_format, OF b]
  note t3 = codec_lookup_exact [THEN conjunct2, THEN conjunct2, THEN conjunct1,
      rule_format, OF c]
  note t4 = codec_lookup_exact [THEN conjunct2, THEN conjunct2, THEN conjunct2,
      rule_format, OF d]
  from t1 t2 t3 t4 show ?thesis by (intro conjI)
qed

section \<open>Failures of the parser and of its settings\<close>

text \<open>
  Claim C1.  \<open>parse\<close> is to return a result on every text.  On a Quick Summary audio
  line that holds the words \<open>ac3 embedded\<close> without the opening parenthesis and the
  colon, the test of line 118 succeeds, the split of line 119 finds nothing to cut,
  and \<open>audio_parts[1]\<close> raises \<open>IndexError\<close>, for every formatter.
\<close>

theorem parse_raises_on_marker_without_parenthesis:
  "parse no_truncation bp (''Quick Summary'' @ [CHR 0x0A] @ ''Audio: DTS ac3 embedded'')
     = Inl IndexError"
  by code_simp

text \<open>
  The audio rows of the Playlist Report (lines 188-194) test and split in the same way,
  and raise on the same kind of row.
\<close>

lemma playlist_audio_row_raises_too:
  "parse_lines no_truncation bp
     [''PLAYLIST REPORT:'', ''AUDIO:'', ''-----'', ''Dolby TrueHD Audio  English  ac3 embedded'']
     = Inl IndexError"
  by code_simp

text \<open>
  Claim C4.  With no truncation variable in the environment the settings are to be
  off and harmless.  The first read, \<open>os.environ.get("IGNORE_AFTER_LINE").strip()\<close>,
  raises \<open>AttributeError\<close> there, so the module does not load.
\<close>

theorem load_config_unset_variable_raises:
  "load_config Map.empty = Inl AttributeError"
  by (simp add: load_config_def)

text \<open>
  With the two variables set to empty strings the module loads, and neither mechanism
  ever triggers.
\<close>

lemma empty_settings_never_trigger:
  "load_config [''IGNORE_AFTER_LINE'' \<mapsto> [], ''IGNORE_AFTER_LINE_METHOD'' \<mapsto> []]
     = Inr no_truncation
   \<and> \<not> isIgnoreAfterLine no_truncation l
   \<and> \<not> ignore_until_blank_hit no_truncation l"
  by (simp add: load_config_def no_truncation_def isIgnoreAfterLine_def
      ignore_until_blank_hit_def str_strip_def str_rstrip_def str_lstrip_def)

section \<open>The hard cutoff\<close>

lemma parse_loop_cut:
  "isIgnoreAfterLine cfg l \<Longrightarrow>
     parse_loop cfg bp st (pre @ l # post) = parse_loop cfg bp st pre"
proof (induction pre arbitrary: st)
  case Nil
  then show ?case by (simp add: loop_body_def)
next
  case (Cons p ps)
  show ?case
  proof (cases "loop_body cfg bp st p")
    case (Inl e)
    then show ?thesis by simp
  next
    case (Inr f)
    then show ?thesis using Cons by (cases f) simp_all
  qed
qed

text \<open>
  Claim C5.  When a line triggers the cutoff test (method \<open>equals\<close> or
  \<open>contains\<close>), the loop breaks on it in every state, whether or not the line is
  blank and whether or not the skip flag is set, and \<open>parse\<close> returns exactly what
  the lines before it produce: the line and all later lines contribute nothing.
\<close>

theorem hard_cutoff_truncates:
  "isIgnoreAfterLine cfg l \<longrightarrow>
     loop_body cfg bp st l = Inr Break
     \<and> parse_loop cfg bp st (pre @ l # post) = parse_loop cfg bp st pre
     \<and> parse_lines cfg bp (pre @ l # post) = parse_lines cfg bp pre"
  by (simp add: parse_loop_cut parse_lines_def loop_body_def)

theorem hard_cutoff_truncates_witness:
  "isIgnoreAfterLine cutoff_END ''the END of it''
   \<and> loop_body cutoff_END plain_formatter (initial_state\<lparr>ignore_next_lines := True\<rparr>)
        ''the END of it'' = Inr Break
   \<and> parse_lines cutoff_END plain_formatter
        ([''Quick Summary'', ''Video: a''] @ ''the END of it'' # [''Video: b''])
      = Inr (\<lparr>video = ['' a''], audio = [], subtitle = [], bd_type = Some BD_QUICK_SUMMARY\<rparr>,
             [], [])"
proof -
  have h: "isIgnoreAfterLine cutoff_END ''the END of it''"
    by code_simp
  have r: "parse_lines cutoff_END plain_formatter [''Quick Summary'', ''Video: a'']
      = Inr (\<lparr>video = ['' a''], audio = [], subtitle = [], bd_type = Some BD_QUICK_SUMMARY\<rparr>,
             [], [])"
    by code_simp
  note t = hard_cutoff_truncates [rule_format, OF h]
  from h r t [of plain_formatter "initial_state\<lparr>ignore_next_lines := True\<rparr>"]
    t [of plain_formatter _ "[''Quick Summary'', ''Video: a'']" "[''Video: b'']"]
  show ?thesis by simp
qed

section \<open>Subtitles\<close>

lemma playlist_report_line_subtitle:
  "playlist_report_line bp st l l2 = Inr st' \<Longrightarrow> subtitle (bdinfo st') = subtitle (bdinfo st)"
  by (auto simp: playlist_report_line_def playlist_heading_def Let_def bdinfo_updates
      split: if_splits sum.splits)

lemma classify_line_subtitle:
  assumes "classify_line bp st l = Inr st'"
    and "sect (determine_section st (str_lower (str_strip l))) \<noteq> Some QUICK_SUMMARY"
  shows "subtitle (bdinfo st') = subtitle (bdinfo st) \<and> sect st' \<noteq> Some QUICK_SUMMARY"
proof -
  let ?d = "determine_section st (str_lower (str_strip l))"
  have s: "subtitle (bdinfo ?d) = subtitle (bdinfo st)"
    by (simp add: determine_section_lists)
  show ?thesis
  proof (cases "sect ?d")
    case None
    with assms s show ?thesis by (simp add: classify_line_unfold)
  next
    case (Some x)
    show ?thesis
    proof (cases x)
      case QUICK_SUMMARY
      with Some assms show ?thesis by simp
    next
      case MEDIAINFO
      with Some assms s show ?thesis by (auto simp: classify_line_unfold)
    next
      case PLAYLIST_REPORT
      with Some assms have p: "playlist_report_line bp ?d l (str_lower (str_strip l)) = Inr st'"
        by (simp add: classify_line_unfold)
      have "sect st' = sect ?d"
        using playlist_report_line_frame[OF p, THEN arg_cong, of sect] by simp
      with playlist_report_line_subtitle[OF p] s Some PLAYLIST_REPORT show ?thesis by simp
    next
      case EAC3TO_LOG
      with Some assms have p: "eac3to_log_line ?d l = Inr st'"
        by (simp add: classify_line_unfold)
      from eac3to_log_line_frame[OF p]
      have f: "st' = ?d\<lparr>eac3to := eac3to st', sect := sect st'\<rparr>"
        and g: "sect st' = sect ?d \<or> sect st' = None" by simp_all
      have "bdinfo st' = bdinfo ?d" using f[THEN arg_cong, of bdinfo] by simp
      with s g Some EAC3TO_LOG show ?thesis by auto
    qed
  qed
qed

lemma determine_section_not_quick_summary:
  "\<not> startswith l2 ''quick summary'' \<Longrightarrow> sect st \<noteq> Some QUICK_SUMMARY
     \<Longrightarrow> sect (determine_section st l2) \<noteq> Some QUICK_SUMMARY"
  by (simp add: determine_section_def bdinfo_updates)

lemma loop_body_subtitle:
  assumes "loop_body cfg bp st l = Inr (Next st')"
    and "\<not> startswith (str_lower (str_strip l)) ''quick summary''"
    and "sect st \<noteq> Some QUICK_SUMMARY"
  shows "subtitle (bdinfo st') = subtitle (bdinfo st) \<and> sect st' \<noteq> Some QUICK_SUMMARY"
proof -
  consider (blank) "st' = st\<lparr>ignore_next_lines := False\<rparr>"
    | (skip) "st' = st"
    | (hit) "classify_line bp (st\<lparr>ignore_next_lines := True\<rparr>) l = Inr st'"
    | (plain) "classify_line bp st l = Inr st'"
    using assms(1) by (auto simp: loop_body_def Let_def split: if_splits sum.splits)
  then show ?thesis
  proof cases
    case blank
    with assms(3) show ?thesis by simp
  next
    case skip
    with assms(3) show ?thesis by simp
  next
    case hit
    have "sect (determine_section (st\<lparr>ignore_next_lines := True\<rparr>) (str_lower (str_strip l)))
        \<noteq> Some QUICK_SUMMARY"
      using assms(2,3) by (intro determine_section_not_quick_summary) simp_all
    from classify_line_subtitle[OF hit this] show ?thesis by simp
  next
    case plain
    have "sect (determine_section st (str_lower (str_strip l))) \<noteq> Some QUICK_SUMMARY"
      using assms(2,3) by (intro determine_section_not_quick_summary) simp_all
    from classify_line_subtitle[OF plain this] show ?thesis by simp
  qed
qed

lemma parse_loop_subtitle:
  "parse_loop cfg bp st ls = Inr st' \<Longrightarrow>
   \<forall>l\<in>set ls. \<not> startswith (str_lower (str_strip l)) ''quick summary'' \<Longrightarrow>
   sect st \<noteq> Some QUICK_SUMMARY \<Longrightarrow>
   subtitle (bdinfo st') = subtitle (bdinfo st)"
proof (induction ls arbitrary: st)
  case Nil
  then show ?case by simp
next
  case (Cons l ls)
  show ?case
  proof (cases "loop_body cfg bp st l")
    case (Inl e)
    with Cons.prems(1) show ?thesis by simp
  next
    case (Inr f)
    show ?thesis
    proof (cases f)
      case Break
      with Inr Cons.prems(1) show ?thesis by simp
    next
      case (Next st1)
      with Inr Cons.prems(1) have r: "parse_loop cfg bp st1 ls = Inr st'" by simp
      from Inr Next have b: "loop_body cfg bp st l = Inr (Next st1)" by simp
      from loop_body_subtitle[OF b] Cons.prems(2,3)
      have s1: "subtitle (bdinfo st1) = subtitle (bdinfo st)" "sect st1 \<noteq> Some QUICK_SUMMARY"
        by simp_all
      from Cons.IH[OF r _ s1(2)] Cons.prems(2) s1(1) show ?thesis by simp
    qed
  qed
qed

text \<open>
  Claim C10.  Subtitle entries come from the Quick Summary only.  A classified line
  that is not handled as a Quick Summary line leaves the subtitle list as it is; a
  line of the Playlist Report, the heading \<open>subtitles:\<close> included, changes neither
  the subtitle list nor the section; and a text none of whose lines starts with
  \<open>quick summary\<close> yields an empty subtitle list.
\<close>

theorem subtitles_only_from_quick_summary:
  "(classify_line bp st l = Inr st'
      \<and> sect (determine_section st (str_lower (str_strip l))) \<noteq> Some QUICK_SUMMARY
      \<longrightarrow> subtitle (bdinfo st') = subtitle (bdinfo st))
   \<and> (playlist_report_line bp st l l2 = Inr st'
      \<longrightarrow> subtitle (bdinfo st') = subtitle (bdinfo st) \<and> sect st' = sect st)
   \<and> ((\<forall>x\<in>set ls. \<not> startswith (str_lower (str_strip x)) ''quick summary'')
      \<and> parse_lines cfg bp ls = Inr (b, m, e)
      \<longrightarrow> subtitle b = [])"
proof (intro conjI impI)
  assume "classify_line bp st l = Inr st'
      \<and> sect (determine_section st (str_lower (str_strip l))) \<noteq> Some QUICK_SUMMARY"
  then show "subtitle (bdinfo st') = subtitle (bdinfo st)"
    using classify_line_subtitle by blast
next
  assume p: "playlist_report_line bp st l l2 = Inr st'"
  then show "subtitle (bdinfo st') = subtitle (bdinfo st)"
    by (rule playlist_report_line_subtitle)
  show "sect st' = sect st"
    using playlist_report_line_frame[OF p, THEN arg_cong, of sect] by simp
next
  assume a: "(\<forall>x\<in>set ls. \<not> startswith (str_lower (str_strip x)) ''quick summary'')
      \<and> parse_lines cfg bp ls = Inr (b, m, e)"
  then obtain st1 where r: "parse_loop cfg bp initial_state ls = Inr st1" and b: "b = bdinfo st1"
    by (auto simp: parse_lines_def split: sum.splits)
  from parse_loop_subtitle[OF r] a have "subtitle (bdinfo st1) = subtitle (bdinfo initial_state)"
    by (simp add: initial_state_def)
  with b show "subtitle b = []" by (simp add: initial_state_def)
qed

theorem subtitles_only_from_quick_summary_witness:
  "parse_lines no_truncation plain_formatter playlist_with_subtitles
     = Inr (\<lparr>video = [''MPEG-4 AVC Video  24000 kbps  1080p''],
             audio = [''DTS-HD Master Audio  English  3000 kbps  5.1''],
             subtitle = [],
             bd_type = Some BD_PLAYLIST_REPORT\<rparr>, [], [])
   \<and> subtitle \<lparr>video = [''MPEG-4 AVC Video  24000 kbps  1080p''],
             audio = [''DTS-HD Master Audio  English  3000 kbps  5.1''],
             subtitle = [],
             bd_type = Some BD_PLAYLIST_REPORT\<rparr> = []"
proof -
  have h: "\<forall>x\<in>set playlist_with_subtitles.
      \<not> startswith (str_lower (str_strip x)) ''quick summary''"
    by code_simp
  have r: "parse_lines no_truncation plain_formatter playlist_with_subtitles
     = Inr (\<lparr>video = [''MPEG-4 AVC Video  24000 kbps  1080p''],
             audio = [''DTS-HD Master Audio  English  3000 kbps  5.1''],
             subtitle = [],
             bd_type = Some BD_PLAYLIST_REPORT\<rparr>, [], [])"
    by code_simp
  note s = subtitles_only_from_quick_summary
    [THEN conjunct2, THEN conjunct2, rule_format, OF conjI, OF h r]
  from r s show ?thesis by (intro conjI)
qed

section \<open>MediaInfo capture\<close>

lemma determine_section_general:
  "startswith l2 ''general'' \<Longrightarrow>
     determine_section st l2 =
       (if did_first_mediainfo st then st\<lparr>sect := None\<rparr>
        else st\<lparr>sect := Some MEDIAINFO, did_first_mediainfo := True\<rparr>)"
  by (simp add: determine_section_def prefix_first_char[of "CHR ''g''"])

lemma determine_section_closed:
  "did_first_mediainfo st \<Longrightarrow> sect st \<noteq> Some MEDIAINFO \<Longrightarrow>
     did_first_mediainfo (determine_section st l2)
     \<and> sect (determine_section st l2) \<noteq> Some MEDIAINFO
     \<and> mediainfo (determine_section st l2) = mediainfo st"
  by (simp add: determine_section_def bdinfo_updates)

lemma determine_section_opens:
  "sect st \<noteq> Some MEDIAINFO \<Longrightarrow> sect (determine_section st l2) = Some MEDIAINFO \<Longrightarrow>
     \<not> did_first_mediainfo st \<and> startswith l2 ''general''"
  by (auto simp: determine_section_def bdinfo_updates split: if_splits)

lemma classify_line_sect:
  assumes "classify_line bp st l = Inr st'"
  shows "sect st' = sect (determine_section st (str_lower (str_strip l))) \<or> sect st' = None"
    and "did_first_mediainfo st'
          = did_first_mediainfo (determine_section st (str_lower (str_strip l)))"
    and "sect (determine_section st (str_lower (str_strip l))) \<noteq> Some MEDIAINFO
          \<Longrightarrow> mediainfo st' = mediainfo st"
    and "sect (determine_section st (str_lower (str_strip l))) = Some MEDIAINFO
          \<Longrightarrow> mediainfo st' = mediainfo st @ [l] \<and> sect st' = Some MEDIAINFO"
proof -
  let ?d = "determine_section st (str_lower (str_strip l))"
  have m: "mediainfo ?d = mediainfo st" by (simp add: determine_section_lists)
  have "(sect st' = sect ?d \<or> sect st' = None)
      \<and> did_first_mediainfo st' = did_first_mediainfo ?d
      \<and> (sect ?d \<noteq> Some MEDIAINFO \<longrightarrow> mediainfo st' = mediainfo ?d)
      \<and> (sect ?d = Some MEDIAINFO \<longrightarrow> mediainfo st' = mediainfo ?d @ [l] \<and> sect st' = Some MEDIAINFO)"
  proof (cases "sect ?d")
    case None
    with assms show ?thesis by (simp add: classify_line_unfold)
  next
    case (Some x)
    show ?thesis
    proof (cases x)
      case QUICK_SUMMARY
      with Some assms have p: "quick_summary_line bp ?d l (str_lower (str_strip l)) = Inr st'"
        by (simp add: classify_line_unfold)
      note f = quick_summary_line_frame[OF p, THEN arg_cong]
      from f[of sect] f[of did_first_mediainfo] f[of mediainfo] Some QUICK_SUMMARY
      show ?thesis by simp
    next
      case MEDIAINFO
      with Some assms show ?thesis by (auto simp: classify_line_unfold)
    next
      case PLAYLIST_REPORT
      with Some assms have p: "playlist_report_line bp ?d l (str_lower (str_strip l)) = Inr st'"
        by (simp add: classify_line_unfold)
      note f = playlist_report_line_frame[OF p, THEN arg_cong]
      from f[of sect] f[of did_first_mediainfo] f[of mediainfo] Some PLAYLIST_REPORT
      show ?thesis by simp
    next
      case EAC3TO_LOG
      with Some assms have p: "eac3to_log_line ?d l = Inr st'"
        by (simp add: classify_line_unfold)
      from eac3to_log_line_frame[OF p]
      have f: "st' = ?d\<lparr>eac3to := eac3to st', sect := sect st'\<rparr>"
        and g: "sect st' = sect ?d \<or> sect st' = None" by simp_all
      from f[THEN arg_cong, of did_first_mediainfo] f[THEN arg_cong, of mediainfo] g
        Some EAC3TO_LOG
      show ?thesis by simp
    qed
  qed
  with m show "sect st' = sect ?d \<or> sect st' = None"
    and "did_first_mediainfo st' = did_first_mediainfo ?d"
    and "sect ?d \<noteq> Some MEDIAINFO \<Longrightarrow> mediainfo st' = mediainfo st"
    and "sect ?d = Some MEDIAINFO \<Longrightarrow> mediainfo st' = mediainfo st @ [l] \<and> sect st' = Some MEDIAINFO"
    by simp_all
qed

lemma classify_line_closed:
  assumes "classify_line bp st l = Inr st'"
    and "did_first_mediainfo st" and "sect st \<noteq> Some MEDIAINFO"
  shows "did_first_mediainfo st' \<and> sect st' \<noteq> Some MEDIAINFO \<and> mediainfo st' = mediainfo st"
proof -
  note d = determine_section_closed[OF assms(2,3), of "str_lower (str_strip l)"]
  from classify_line_sect[OF assms(1)] d show ?thesis by auto
qed

lemma loop_body_closed:
  assumes "loop_body cfg bp st l = Inr (Next st')"
    and "did_first_mediainfo st" and "sect st \<noteq> Some MEDIAINFO"
  shows "did_first_mediainfo st' \<and> sect st' \<noteq> Some MEDIAINFO \<and> mediainfo st' = mediainfo st"
  using assms(1)
proof (cases rule: loop_body_cases)
  case blank
  with assms show ?thesis by simp
next
  case skip
  with assms show ?thesis by simp
next
  case hit
  from classify_line_closed[OF hit] assms(2,3) show ?thesis by simp
next
  case plain
  from classify_line_closed[OF plain] assms(2,3) show ?thesis by simp
qed

lemma parse_loop_closed:
  "parse_loop cfg bp st ls = Inr st' \<Longrightarrow> did_first_mediainfo st \<Longrightarrow>
   sect st \<noteq> Some MEDIAINFO \<Longrightarrow>
   mediainfo st' = mediainfo st \<and> sect st' \<noteq> Some MEDIAINFO \<and> did_first_mediainfo st'"
proof (induction ls arbitrary: st)
  case Nil
  then show ?case by simp
next
  case (Cons l ls)
  show ?case
  proof (cases "loop_body cfg bp st l")
    case (Inl e)
    with Cons.prems(1) show ?thesis by simp
  next
    case (Inr f)
    show ?thesis
    proof (cases f)
      case Break
      with Inr Cons.prems show ?thesis by simp
    next
      case (Next st1)
      with Inr Cons.prems(1) have r: "parse_loop cfg bp st1 ls = Inr st'" by simp
      from Inr Next have b: "loop_body cfg bp st l = Inr (Next st1)" by simp
      from loop_body_closed[OF b Cons.prems(2,3)]
      have s1: "did_first_mediainfo st1" "sect st1 \<noteq> Some MEDIAINFO"
        "mediainfo st1 = mediainfo st" by simp_all
      from Cons.IH[OF r s1(1,2)] s1(3) show ?thesis by simp
    qed
  qed
qed


lemma classify_line_general:
  "startswith (str_lower (str_strip l)) ''general'' \<Longrightarrow>
     classify_line bp st l
       = Inr (if did_first_mediainfo st then st\<lparr>sect := None\<rparr>
              else st\<lparr>sect := Some MEDIAINFO, did_first_mediainfo := True,
                     mediainfo := mediainfo st @ [l]\<rparr>)"
  by (simp add: classify_line_unfold determine_section_general)

lemma general_not_blank:
  "startswith (str_lower (str_strip l)) ''general'' \<Longrightarrow> str_strip l \<noteq> []"
  by (auto simp: str_lower_def)

lemma loop_body_general:
  assumes "\<not> isIgnoreAfterLine cfg l" "\<not> ignore_next_lines st"
    "startswith (str_lower (str_strip l)) ''general''"
  shows "loop_body cfg bp st l
     = Inr (Next (if did_first_mediainfo st
                  then st\<lparr>ignore_next_lines := ignore_until_blank_hit cfg l, sect := None\<rparr>
                  else st\<lparr>ignore_next_lines := ignore_until_blank_hit cfg l,
                         sect := Some MEDIAINFO, did_first_mediainfo := True,
                         mediainfo := mediainfo st @ [l]\<rparr>))"
proof (cases "ignore_until_blank_hit cfg l")
  case True
  with assms general_not_blank[OF assms(3)] show ?thesis
    by (simp add: loop_body_def classify_line_general)
next
  case False
  with assms(2) have e: "st\<lparr>ignore_next_lines := ignore_until_blank_hit cfg l\<rparr> = st" by simp
  have "loop_body cfg bp st l
      = (case classify_line bp st l of Inl e \<Rightarrow> Inl e | Inr st2 \<Rightarrow> Inr (Next st2))"
    using assms(1,2) general_not_blank[OF assms(3)] False by (simp add: loop_body_def)
  also have "\<dots> = Inr (Next (if did_first_mediainfo st then st\<lparr>sect := None\<rparr>
              else st\<lparr>sect := Some MEDIAINFO, did_first_mediainfo := True,
                     mediainfo := mediainfo st @ [l]\<rparr>))"
    by (simp add: classify_line_general[OF assms(3)])
  finally show ?thesis using e by (cases st) (simp add: False)
qed

lemma loop_body_unclassified:
  assumes "loop_body cfg bp st l = Inr (Next st')" "str_strip l = [] \<or> ignore_next_lines st"
  shows "mediainfo st' = mediainfo st \<and> sect st' = sect st
         \<and> did_first_mediainfo st' = did_first_mediainfo st"
  using assms by (auto simp: loop_body_def split: if_splits)

text \<open>
  Claim C7, as stated, fails: a line dropped by the soft skip is not looked at.  With the
  skip prefix \<open>disc size\<close>, a later line starting with \<open>general\<close> that falls
  into a skipped run leaves the capture open, so the capture goes on behind the run;
  and a first line starting with \<open>general\<close> that falls into a skipped run opens
  nothing, so a later one opens the capture.
\<close>

theorem later_general_line_skipped:
  "parse_lines skip_after_disc_size plain_formatter
     [''General'', ''Disc Size: 1'', ''General'', ''x'', '''', ''Format : B'']
     = Inr (\<lparr>video = [], audio = [], subtitle = [], bd_type = None\<rparr>,
            [''General'', ''Disc Size: 1'', ''Format : B''], [])
   \<and> parse_lines skip_after_disc_size plain_formatter
     [''Disc Size: 1'', ''General'', ''Format : A'', '''', ''General'', ''Format : B'']
     = Inr (\<lparr>video = [], audio = [], subtitle = [], bd_type = None\<rparr>,
            [''General'', ''Format : B''], [])"
  by code_simp

text \<open>
  Claim C7, amended.  At most one MediaInfo block is captured, and the lines that count
  are those that reach classification: not blank, not dropped by the soft skip, before
  any hard cutoff.  Such a line starting with \<open>general\<close> opens the capture (and is
  its first line) when no block has been captured yet, and sets the section to
  \<open>None\<close> afterwards, in the section logic and in the loop body alike; a blank or
  skipped line changes neither the metadata nor the section nor the mark that a block
  has been captured; capture is opened by no other line; a line is added to the
  metadata only while the section is MediaInfo; the mark is never taken back; and once
  a block has been opened and left, the rest of the text adds nothing to the metadata
  and never makes the section MediaInfo again.
\<close>

theorem mediainfo_captured_once:
  "(startswith (str_lower (str_strip l)) ''general'' \<and> \<not> did_first_mediainfo st
      \<longrightarrow> classify_line bp st l
            = Inr (st\<lparr>sect := Some MEDIAINFO, did_first_mediainfo := True,
                      mediainfo := mediainfo st @ [l]\<rparr>))
   \<and> (startswith (str_lower (str_strip l)) ''general'' \<and> did_first_mediainfo st
      \<longrightarrow> classify_line bp st l = Inr (st\<lparr>sect := None\<rparr>))
   \<and> (classify_line bp st l = Inr st' \<and> sect st \<noteq> Some MEDIAINFO
        \<and> sect st' = Some MEDIAINFO
      \<longrightarrow> \<not> did_first_mediainfo st \<and> startswith (str_lower (str_strip l)) ''general'')
   \<and> (classify_line bp st l = Inr st' \<and> mediainfo st' \<noteq> mediainfo st
      \<longrightarrow> mediainfo st' = mediainfo st @ [l] \<and> sect st' = Some MEDIAINFO)
   \<and> (classify_line bp st l = Inr st' \<and> did_first_mediainfo st
      \<longrightarrow> did_first_mediainfo st')
   \<and> (did_first_mediainfo st \<and> sect st \<noteq> Some MEDIAINFO
        \<and> parse_loop cfg bp st ls = Inr st'
      \<longrightarrow> mediainfo st' = mediainfo st \<and> sect st' \<noteq> Some MEDIAINFO)
   \<and> (\<not> isIgnoreAfterLine cfg l \<and> \<not> ignore_next_lines st
        \<and> startswith (str_lower (str_strip l)) ''general'' \<and> \<not> did_first_mediainfo st
      \<longrightarrow> loop_body cfg bp st l
            = Inr (Next (st\<lparr>ignore_next_lines := ignore_until_blank_hit cfg l,
                            sect := Some MEDIAINFO, did_first_mediainfo := True,
                            mediainfo := mediainfo st @ [l]\<rparr>)))
   \<and> (\<not> isIgnoreAfterLine cfg l \<and> \<not> ignore_next_lines st
        \<and> startswith (str_lower (str_strip l)) ''general'' \<and> did_first_mediainfo st
      \<longrightarrow> loop_body cfg bp st l
            = Inr (Next (st\<lparr>ignore_next_lines := ignore_until_blank_hit cfg l,
                            sect := None\<rparr>)))
   \<and> (loop_body cfg bp st l = Inr (Next st') \<and> (str_strip l = [] \<or> ignore_next_lines st)
      \<longrightarrow> mediainfo st' = mediainfo st \<and> sect st' = sect st
          \<and> did_first_mediainfo st' = did_first_mediainfo st)"
proof (intro conjI impI)
  assume "startswith (str_lower (str_strip l)) ''general'' \<and> \<not> did_first_mediainfo st"
  then show "classify_line bp st l
            = Inr (st\<lparr>sect := Some MEDIAINFO, did_first_mediainfo := True,
                      mediainfo := mediainfo st @ [l]\<rparr>)"
    by (simp add: classify_line_general)
next
  assume "startswith (str_lower (str_strip l)) ''general'' \<and> did_first_mediainfo st"
  then show "classify_line bp st l = Inr (st\<lparr>sect := None\<rparr>)"
    by (simp add: classify_line_general)
next
  assume a: "classify_line bp st l = Inr st' \<and> sect st \<noteq> Some MEDIAINFO
        \<and> sect st' = Some MEDIAINFO"
  then have c: "classify_line bp st l = Inr st'" by simp
  from classify_line_sect(1)[OF c] a
  have "sect (determine_section st (str_lower (str_strip l))) = Some MEDIAINFO" by auto
  with a determine_section_opens
  have r: "\<not> did_first_mediainfo st \<and> startswith (str_lower (str_strip l)) ''general''"
    by blast
  from r show "\<not> did_first_mediainfo st" by simp
  from r show "startswith (str_lower (str_strip l)) ''general''" by simp
next
  assume a: "classify_line bp st l = Inr st' \<and> mediainfo st' \<noteq> mediainfo st"
  then have c: "classify_line bp st l = Inr st'" by simp
  let ?d = "determine_section st (str_lower (str_strip l))"
  from classify_line_sect(3)[OF c] a have m: "sect ?d = Some MEDIAINFO" by blast
  from classify_line_sect(4)[OF c m]
  show "mediainfo st' = mediainfo st @ [l]" "sect st' = Some MEDIAINFO" by simp_all
next
  assume a: "classify_line bp st l = Inr st' \<and> did_first_mediainfo st"
  then have c: "classify_line bp st l = Inr st'" by simp
  from a have "did_first_mediainfo (determine_section st (str_lower (str_strip l)))"
    by (simp add: determine_section_def bdinfo_updates)
  with classify_line_sect(2)[OF c] show "did_first_mediainfo st'" by simp
next
  assume a: "did_first_mediainfo st \<and> sect st \<noteq> Some MEDIAINFO
        \<and> parse_loop cfg bp st ls = Inr st'"
  from a parse_loop_closed[of cfg bp st ls st']
  show "mediainfo st' = mediainfo st" "sect st' \<noteq> Some MEDIAINFO" by simp_all
next
  assume a: "\<not> isIgnoreAfterLine cfg l \<and> \<not> ignore_next_lines st
        \<and> startswith (str_lower (str_strip l)) ''general'' \<and> \<not> did_first_mediainfo st"
  then show "loop_body cfg bp st l
            = Inr (Next (st\<lparr>ignore_next_lines := ignore_until_blank_hit cfg l,
                            sect := Some MEDIAINFO, did_first_mediainfo := True,
                            mediainfo := mediainfo st @ [l]\<rparr>))"
    by (simp add: loop_body_general)
next
  assume a: "\<not> isIgnoreAfterLine cfg l \<and> \<not> ignore_next_lines st
        \<and> startswith (str_lower (str_strip l)) ''general'' \<and> did_first_mediainfo st"
  then show "loop_body cfg bp st l
            = Inr (Next (st\<lparr>ignore_next_lines := ignore_until_blank_hit cfg l,
                            sect := None\<rparr>))"
    by (simp add: loop_body_general)
next
  assume a: "loop_body cfg bp st l = Inr (Next st') \<and> (str_strip l = [] \<or> ignore_next_lines st)"
  from loop_body_unclassified[of cfg bp st l st'] a
  show "mediainfo st' = mediainfo st" "sect st' = sect st"
    "did_first_mediainfo st' = did_first_mediainfo st" by simp_all
qed

theorem mediainfo_captured_once_witness:
  "classify_line plain_formatter initial_state ''General''
     = Inr (initial_state\<lparr>sect := Some MEDIAINFO, did_first_mediainfo := True,
              mediainfo := mediainfo initial_state @ [''General'']\<rparr>)
   \<and> classify_line plain_formatter after_first_block ''General''
     = Inr (after_first_block\<lparr>sect := None\<rparr>)
   \<and> parse_loop no_truncation plain_formatter initial_state (take 3 two_general_blocks)
     = Inr after_first_block
   \<and> parse_loop no_truncation plain_formatter after_first_block (drop 3 two_general_blocks)
     = Inr (after_first_block\<lparr>sect := None\<rparr>)
   \<and> mediainfo (after_first_block\<lparr>sect := None\<rparr>) = mediainfo after_first_block
   \<and> sect (after_first_block\<lparr>sect := None\<rparr>) \<noteq> Some MEDIAINFO
   \<and> loop_body skip_after_disc_size plain_formatter initial_state ''General''
     = Inr (Next (initial_state
          \<lparr>ignore_next_lines := ignore_until_blank_hit skip_after_disc_size ''General'',
            sect := Some MEDIAINFO, did_first_mediainfo := True,
            mediainfo := mediainfo initial_state @ [''General'']\<rparr>))
   \<and> loop_body skip_after_disc_size plain_formatter after_first_block ''General''
     = Inr (Next (after_first_block
          \<lparr>ignore_next_lines := ignore_until_blank_hit skip_after_disc_size ''General'',
            sect := None\<rparr>))
   \<and> loop_body skip_after_disc_size plain_formatter
       (after_first_block\<lparr>ignore_next_lines := True\<rparr>) ''General''
     = Inr (Next (after_first_block\<lparr>ignore_next_lines := True\<rparr>))
   \<and> sect (after_first_block\<lparr>ignore_next_lines := True\<rparr>) = sect after_first_block"
proof -
  have g: "startswith (str_lower (str_strip ''General'')) ''general''"
    by code_simp
  have i: "\<not> did_first_mediainfo initial_state" "\<not> ignore_next_lines initial_state"
    by (simp_all add: initial_state_def)
  have a: "did_first_mediainfo after_first_block" "sect after_first_block \<noteq> Some MEDIAINFO"
    "\<not> ignore_next_lines after_first_block"
    by (simp_all add: after_first_block_def initial_state_def)
  have c: "\<not> isIgnoreAfterLine skip_after_disc_size ''General''"
    by code_simp
  have p1: "parse_loop no_truncation plain_formatter initial_state (take 3 two_general_blocks)
     = Inr after_first_block"
    by code_simp
  have p2: "parse_loop no_truncation plain_formatter after_first_block
      (drop 3 two_general_blocks) = Inr (after_first_block\<lparr>sect := None\<rparr>)"
    by code_simp
  have sk: "loop_body skip_after_disc_size plain_formatter
       (after_first_block\<lparr>ignore_next_lines := True\<rparr>) ''General''
     = Inr (Next (after_first_block\<lparr>ignore_next_lines := True\<rparr>))"
    by code_simp
  have fl: "str_strip ''General'' = []
      \<or> ignore_next_lines (after_first_block\<lparr>ignore_next_lines := True\<rparr>)"
    by simp
  note t = mediainfo_captured_once
  note t1 = t [THEN conjunct1, rule_format, OF conjI, OF g i(1)]
  note t2 = t [THEN conjunct2, THEN conjunct1, rule_format, OF conjI, OF g a(1)]
  note t6 = t [THEN conjunct2, THEN conjunct2, THEN conjunct2, THEN conjunct2,
      THEN conjunct2, THEN conjunct1, rule_format,
      OF conjI [OF a(1) conjI [OF a(2) p2]]]
  note t7 = t [THEN conjunct2, THEN conjunct2, THEN conjunct2, THEN conjunct2,
      THEN conjunct2, THEN conjunct2, THEN conjunct1, rule_format,
      OF conjI [OF c conjI [OF i(2) conjI [OF g i(1)]]], of plain_formatter]
  note t8 = t [THEN conjunct2, THEN conjunct2, THEN conjunct2, THEN conjunct2,
      THEN conjunct2, THEN conjunct2, THEN conjunct2, THEN conjunct1, rule_format,
      OF conjI [OF c conjI [OF a(3) conjI [OF g a(1)]]], of plain_formatter]
  note t9 = t [THEN conjunct2, THEN conjunct2, THEN conjunct2, THEN conjunct2,
      THEN conjunct2, THEN conjunct2, THEN conjunct2, THEN conjunct2, rule_format,
      OF conjI [OF sk fl]]
  from t1 t2 p1 p2 t6 t7 t8 sk t9 show ?thesis by (intro conjI) simp_all
qed

section \<open>Rows of the Playlist Report\<close>

lemma playlist_report_line_rows:
  assumes "playlist_report_line bp st l l2 = Inr st'"
  shows "(video (bdinfo st') \<noteq> video (bdinfo st)
           \<longrightarrow> sect2 st' = Some PLAYLIST_VIDEO \<and> sect3 st' = Some PLAYLIST_INNER_VIDEO)
       \<and> (audio (bdinfo st') \<noteq> audio (bdinfo st)
           \<longrightarrow> sect2 st' = Some PLAYLIST_AUDIO \<and> sect3 st' = Some PLAYLIST_INNER_AUDIO)
       \<and> (sect3 st' \<noteq> sect3 st \<longrightarrow> startswith l2 ''-----'')
       \<and> (startswith l2 ''-----''
           \<longrightarrow> bdinfo st' = bdinfo st
               \<and> (sect2 st' = Some PLAYLIST_VIDEO \<longrightarrow> sect3 st' = Some PLAYLIST_INNER_VIDEO)
               \<and> (sect2 st' = Some PLAYLIST_AUDIO \<longrightarrow> sect3 st' = Some PLAYLIST_INNER_AUDIO)
               \<and> (sect2 st' \<noteq> Some PLAYLIST_VIDEO \<and> sect2 st' \<noteq> Some PLAYLIST_AUDIO
                    \<longrightarrow> sect3 st' = sect3 st))"
  using assms
  by (auto simp: playlist_report_line_def playlist_heading_def Let_def bdinfo_updates
      split: if_splits sum.splits)

lemma determine_section_dash:
  "startswith l2 ''-'' \<Longrightarrow> determine_section st l2 = st"
  by (simp add: determine_section_def prefix_first_char[of "CHR ''-''"])

lemma playlist_heading_dash:
  "startswith l2 ''-'' \<Longrightarrow> playlist_heading st l2 = st"
  by (simp add: playlist_heading_def prefix_first_char[of "CHR ''-''"])

lemma playlist_report_line_dash:
  "startswith l ''-'' \<Longrightarrow> startswith l2 ''-'' \<Longrightarrow> \<not> startswith l2 ''-----'' \<Longrightarrow>
     playlist_report_line bp st l l2 = Inr st"
  by (simp add: playlist_report_line_def playlist_heading_dash)

text \<open>
  Claim C8.  For a line handled as a Playlist Report line: the video list grows only
  if afterwards the sub-state is video and the inner state is inner-video, and the audio
  list only if they are audio and inner-audio; the inner state changes only on a
  separator row, which sets it from the sub-state; and a row that begins with \<open>-\<close>
  and is not a separator leaves the whole state as it is.
\<close>

theorem playlist_rows_need_matching_inner:
  "(sect (determine_section st (str_lower (str_strip l))) = Some PLAYLIST_REPORT
      \<and> classify_line bp st l = Inr st'
    \<longrightarrow> (video (bdinfo st') \<noteq> video (bdinfo st)
           \<longrightarrow> sect2 st' = Some PLAYLIST_VIDEO \<and> sect3 st' = Some PLAYLIST_INNER_VIDEO)
       \<and> (audio (bdinfo st') \<noteq> audio (bdinfo st)
           \<longrightarrow> sect2 st' = Some PLAYLIST_AUDIO \<and> sect3 st' = Some PLAYLIST_INNER_AUDIO)
       \<and> (sect3 st' \<noteq> sect3 st \<longrightarrow> startswith (str_lower (str_strip l)) ''-----'')
       \<and> (startswith (str_lower (str_strip l)) ''-----''
           \<longrightarrow> (sect2 st' = Some PLAYLIST_VIDEO \<longrightarrow> sect3 st' = Some PLAYLIST_INNER_VIDEO)
               \<and> (sect2 st' = Some PLAYLIST_AUDIO \<longrightarrow> sect3 st' = Some PLAYLIST_INNER_AUDIO)
               \<and> (sect2 st' \<noteq> Some PLAYLIST_VIDEO \<and> sect2 st' \<noteq> Some PLAYLIST_AUDIO
                    \<longrightarrow> sect3 st' = sect3 st)))
   \<and> (sect st = Some PLAYLIST_REPORT \<and> startswith l ''-''
        \<and> \<not> startswith (str_lower (str_strip l)) ''-----''
      \<longrightarrow> classify_line bp st l = Inr st)"
proof (intro conjI impI)
  let ?l2 = "str_lower (str_strip l)"
  let ?d = "determine_section st ?l2"
  assume a: "sect ?d = Some PLAYLIST_REPORT \<and> classify_line bp st l = Inr st'"
  then have a1: "sect ?d = Some PLAYLIST_REPORT" and a2: "classify_line bp st l = Inr st'"
    by simp_all
  from a2 have p: "playlist_report_line bp ?d l ?l2 = Inr st'"
    unfolding classify_line_unfold a1 by simp
  note r = playlist_report_line_rows[OF p]
  note d = determine_section_lists[of st ?l2]
  { assume "video (bdinfo st') \<noteq> video (bdinfo st)"
    with r d show "sect2 st' = Some PLAYLIST_VIDEO" "sect3 st' = Some PLAYLIST_INNER_VIDEO"
      by simp_all }
  { assume "audio (bdinfo st') \<noteq> audio (bdinfo st)"
    with r d show "sect2 st' = Some PLAYLIST_AUDIO" "sect3 st' = Some PLAYLIST_INNER_AUDIO"
      by simp_all }
  { assume "sect3 st' \<noteq> sect3 st"
    with r d show "startswith ?l2 ''-----''" by simp }
  { assume s: "startswith ?l2 ''-----''"
    { assume "sect2 st' = Some PLAYLIST_VIDEO"
      with r s show "sect3 st' = Some PLAYLIST_INNER_VIDEO" by simp }
    { assume "sect2 st' = Some PLAYLIST_AUDIO"
      with r s show "sect3 st' = Some PLAYLIST_INNER_AUDIO" by simp }
    { assume "sect2 st' \<noteq> Some PLAYLIST_VIDEO \<and> sect2 st' \<noteq> Some PLAYLIST_AUDIO"
      with r s d show "sect3 st' = sect3 st" by simp } }
next
  let ?l2 = "str_lower (str_strip l)"
  assume a: "sect st = Some PLAYLIST_REPORT \<and> startswith l ''-''
        \<and> \<not> startswith ?l2 ''-----''"
  then have dash: "startswith ?l2 ''-''" by (simp add: dash_line_lower)
  with a show "classify_line bp st l = Inr st"
    by (simp add: classify_line_unfold determine_section_dash playlist_report_line_dash)
qed

theorem playlist_rows_need_matching_inner_witness:
  "classify_line plain_formatter in_playlist_video ''MPEG-4 AVC Video  24000 kbps''
     = Inr (append_video ''MPEG-4 AVC Video  24000 kbps'' in_playlist_video)
   \<and> sect2 (append_video ''MPEG-4 AVC Video  24000 kbps'' in_playlist_video)
       = Some PLAYLIST_VIDEO
   \<and> sect3 (append_video ''MPEG-4 AVC Video  24000 kbps'' in_playlist_video)
       = Some PLAYLIST_INNER_VIDEO
   \<and> classify_line plain_formatter in_playlist_video ''- hidden track'' = Inr in_playlist_video"
proof -
  let ?l = "''MPEG-4 AVC Video  24000 kbps''"
  let ?st' = "append_video ?l in_playlist_video"
  have s: "sect (determine_section in_playlist_video (str_lower (str_strip ?l)))
      = Some PLAYLIST_REPORT" by code_simp
  have c: "classify_line plain_formatter in_playlist_video ?l = Inr ?st'" by code_simp
  have v: "video (bdinfo ?st') \<noteq> video (bdinfo in_playlist_video)" by code_simp
  have d: "sect in_playlist_video = Some PLAYLIST_REPORT" "startswith ''- hidden track'' ''-''"
    "\<not> startswith (str_lower (str_strip ''- hidden track'')) ''-----''"
    by code_simp+
  note t = playlist_rows_need_matching_inner
  note t1 = t [THEN conjunct1, rule_format, OF conjI [OF s c], THEN conjunct1, rule_format, OF v]
  note t2 = t [THEN conjunct2, rule_format, OF conjI [OF d(1) conjI [OF d(2) d(3)]],
      of plain_formatter]
  from c t1 t2 show ?thesis by (intro conjI) simp_all
qed

section \<open>The soft skip\<close>

lemma determine_section_flag:
  "determine_section (st\<lparr>ignore_next_lines := b\<rparr>) l2
     = (determine_section st l2)\<lparr>ignore_next_lines := b\<rparr>"
  by (simp add: determine_section_def bdinfo_updates)

lemma quick_summary_line_flag:
  "quick_summary_line bp (st\<lparr>ignore_next_lines := b\<rparr>) l l2
     = map_sum id (\<lambda>s. s\<lparr>ignore_next_lines := b\<rparr>) (quick_summary_line bp st l l2)"
  by (simp add: quick_summary_line_def Let_def bdinfo_updates split: sum.splits)

lemma playlist_report_line_flag:
  "playlist_report_line bp (st\<lparr>ignore_next_lines := b\<rparr>) l l2
     = map_sum id (\<lambda>s. s\<lparr>ignore_next_lines := b\<rparr>) (playlist_report_line bp st l l2)"
  by (simp add: playlist_report_line_def playlist_heading_def Let_def bdinfo_updates
      split: sum.splits)

lemma eac3to_log_line_flag:
  "eac3to_log_line (st\<lparr>ignore_next_lines := b\<rparr>) l
     = map_sum id (\<lambda>s. s\<lparr>ignore_next_lines := b\<rparr>) (eac3to_log_line st l)"
  by (simp add: eac3to_log_line_def eac3to_append_def Let_def)

lemma classify_line_flag:
  "classify_line bp (st\<lparr>ignore_next_lines := b\<rparr>) l
     = map_sum id (\<lambda>s. s\<lparr>ignore_next_lines := b\<rparr>) (classify_line bp st l)"
proof -
  let ?d = "determine_section st (str_lower (str_strip l))"
  show ?thesis
  proof (cases "sect ?d")
    case None
    then show ?thesis by (simp add: classify_line_unfold determine_section_flag)
  next
    case (Some x)
    then show ?thesis
      by (cases x)
        (simp_all add: classify_line_unfold determine_section_flag quick_summary_line_flag
          playlist_report_line_flag eac3to_log_line_flag)
  qed
qed

lemma classify_line_keeps_flag:
  assumes "classify_line bp st l = Inr st'"
  shows "ignore_next_lines st' = ignore_next_lines st"
proof -
  have "classify_line bp (st\<lparr>ignore_next_lines := ignore_next_lines st\<rparr>) l = Inr st'"
    using assms by simp
  then have "Inr (st'\<lparr>ignore_next_lines := ignore_next_lines st\<rparr>) = (Inr st' :: py_error + pstate)"
    unfolding classify_line_flag assms by simp
  then have "st'\<lparr>ignore_next_lines := ignore_next_lines st\<rparr> = st'" by simp
  then have "ignore_next_lines (st'\<lparr>ignore_next_lines := ignore_next_lines st\<rparr>)
      = ignore_next_lines st'" by simp
  then show ?thesis by simp
qed

lemma loop_body_hit:
  assumes "\<not> isIgnoreAfterLine cfg l" "str_strip l \<noteq> []" "\<not> ignore_next_lines st"
    "ignore_until_blank_hit cfg l"
  shows "loop_body cfg bp st l
     = (case classify_line bp st l of
          Inl e \<Rightarrow> Inl e
        | Inr st2 \<Rightarrow> Inr (Next (st2\<lparr>ignore_next_lines := True\<rparr>)))"
  using assms by (simp add: loop_body_def classify_line_flag split: sum.splits)

lemma loop_body_no_hit:
  assumes "\<not> isIgnoreAfterLine cfg l" "str_strip l \<noteq> []" "\<not> ignore_next_lines st"
    "\<not> ignore_until_blank_hit cfg l"
  shows "loop_body cfg bp st l
     = (case classify_line bp st l of
          Inl e \<Rightarrow> Inl e
        | Inr st2 \<Rightarrow> Inr (Next st2))"
  using assms by (simp add: loop_body_def)

lemma loop_body_skipped:
  "\<not> isIgnoreAfterLine cfg l \<Longrightarrow> str_strip l \<noteq> [] \<Longrightarrow> ignore_next_lines st \<Longrightarrow>
     loop_body cfg bp st l = Inr (Next st)"
  by (simp add: loop_body_def)

lemma loop_body_blank:
  "\<not> isIgnoreAfterLine cfg l \<Longrightarrow> str_strip l = [] \<Longrightarrow>
     loop_body cfg bp st l = Inr (Next (st\<lparr>ignore_next_lines := False\<rparr>))"
  by (simp add: loop_body_def)

lemma parse_loop_skipping:
  "ignore_next_lines st \<Longrightarrow>
   \<forall>x\<in>set skipped. \<not> isIgnoreAfterLine cfg x \<and> str_strip x \<noteq> [] \<Longrightarrow>
   parse_loop cfg bp st (skipped @ rest) = parse_loop cfg bp st rest"
  by (induction skipped) (simp_all add: loop_body_skipped)

lemma ignore_until_blank_hit_iff:
  "ignore_until_blank_hit cfg l \<longleftrightarrow>
     IGNORE_UNTIL_BLANK_LINE_PREFIXES cfg \<noteq> []
     \<and> hd (IGNORE_UNTIL_BLANK_LINE_PREFIXES cfg) \<noteq> []
     \<and> (\<exists>x\<in>set (IGNORE_UNTIL_BLANK_LINE_PREFIXES cfg). startswith (str_lower (str_strip l)) x)"
  by (simp add: ignore_until_blank_hit_def list_ex_iff)

text \<open>
  Claim C6, as stated, fails: the prefixes are consulted only when the first entry of
  the list is not the empty string.  With the setting \<open>,disc size\<close> the list is
  \<open>["", "disc size"]\<close>, a line starting with \<open>disc size\<close> sets no flag, and the
  line after it is kept.
\<close>

theorem soft_skip_disabled_by_empty_first_prefix:
  "load_config [''IGNORE_AFTER_LINE'' \<mapsto> [], ''IGNORE_AFTER_LINE_METHOD'' \<mapsto> [],
                ''IGNORE_UNTIL_BLANK_LINE_PREFIXES'' \<mapsto> '',disc size'']
     = Inr skip_with_empty_first
   \<and> startswith (str_lower (str_strip ''Disc Size: 40,000,000 bytes'')) ''disc size''
   \<and> parse_lines skip_with_empty_first plain_formatter
        [''Quick Summary:'', ''Disc Size: 40,000,000 bytes'', ''Video: MPEG-4 AVC'']
      = Inr (\<lparr>video = ['' MPEG-4 AVC''], audio = [], subtitle = [],
              bd_type = Some BD_QUICK_SUMMARY\<rparr>, [], [])"
  by code_simp

text \<open>
  Claim C6, amended.  Let the first configured prefix be non-empty, and take lines that
  do not trigger the hard cutoff.  A non-blank line met with the flag unset whose
  trimmed, lower-cased form starts with a configured prefix is classified exactly as
  without the prefixes, and the flag is set in the resulting state.  A non-blank line
  met with the flag set leaves the state as it is.  A blank line only clears the flag.
  Hence after such a line, any run of non-blank lines and a blank line, parsing goes on
  with the state that the first line alone produces.
\<close>

theorem soft_skip_until_blank:
  "(\<not> isIgnoreAfterLine cfg l \<and> str_strip l \<noteq> [] \<and> \<not> ignore_next_lines st
      \<and> hd (IGNORE_UNTIL_BLANK_LINE_PREFIXES cfg) \<noteq> []
      \<and> x \<in> set (IGNORE_UNTIL_BLANK_LINE_PREFIXES cfg)
      \<and> startswith (str_lower (str_strip l)) x
    \<longrightarrow> loop_body cfg bp st l
          = (case classify_line bp st l of
               Inl err \<Rightarrow> Inl err
             | Inr st2 \<Rightarrow> Inr (Next (st2\<lparr>ignore_next_lines := True\<rparr>))))
   \<and> (\<not> isIgnoreAfterLine cfg l \<and> str_strip l \<noteq> [] \<and> ignore_next_lines st
    \<longrightarrow> loop_body cfg bp st l = Inr (Next st))
   \<and> (\<not> isIgnoreAfterLine cfg l \<and> str_strip l = []
    \<longrightarrow> loop_body cfg bp st l = Inr (Next (st\<lparr>ignore_next_lines := False\<rparr>)))
   \<and> (\<not> isIgnoreAfterLine cfg l \<and> str_strip l \<noteq> [] \<and> \<not> ignore_next_lines st
      \<and> hd (IGNORE_UNTIL_BLANK_LINE_PREFIXES cfg) \<noteq> []
      \<and> x \<in> set (IGNORE_UNTIL_BLANK_LINE_PREFIXES cfg)
      \<and> startswith (str_lower (str_strip l)) x
      \<and> (\<forall>s\<in>set skipped. \<not> isIgnoreAfterLine cfg s \<and> str_strip s \<noteq> [])
      \<and> \<not> isIgnoreAfterLine cfg blank \<and> str_strip blank = []
    \<longrightarrow> parse_loop cfg bp st (l # skipped @ blank # rest)
          = (case classify_line bp st l of
               Inl err \<Rightarrow> Inl err
             | Inr st2 \<Rightarrow> parse_loop cfg bp st2 rest))"
proof (intro conjI impI)
  assume a: "\<not> isIgnoreAfterLine cfg l \<and> str_strip l \<noteq> [] \<and> \<not> ignore_next_lines st
      \<and> hd (IGNORE_UNTIL_BLANK_LINE_PREFIXES cfg) \<noteq> []
      \<and> x \<in> set (IGNORE_UNTIL_BLANK_LINE_PREFIXES cfg)
      \<and> startswith (str_lower (str_strip l)) x"
  then have "ignore_until_blank_hit cfg l"
    unfolding ignore_until_blank_hit_iff by auto
  with a show "loop_body cfg bp st l
          = (case classify_line bp st l of
               Inl err \<Rightarrow> Inl err
             | Inr st2 \<Rightarrow> Inr (Next (st2\<lparr>ignore_next_lines := True\<rparr>)))"
    by (simp add: loop_body_hit)
next
  assume "\<not> isIgnoreAfterLine cfg l \<and> str_strip l \<noteq> [] \<and> ignore_next_lines st"
  then show "loop_body cfg bp st l = Inr (Next st)"
    by (simp add: loop_body_skipped)
next
  assume "\<not> isIgnoreAfterLine cfg l \<and> str_strip l = []"
  then show "loop_body cfg bp st l = Inr (Next (st\<lparr>ignore_next_lines := False\<rparr>))"
    by (simp add: loop_body_blank)
next
  assume a: "\<not> isIgnoreAfterLine cfg l \<and> str_strip l \<noteq> [] \<and> \<not> ignore_next_lines st
      \<and> hd (IGNORE_UNTIL_BLANK_LINE_PREFIXES cfg) \<noteq> []
      \<and> x \<in> set (IGNORE_UNTIL_BLANK_LINE_PREFIXES cfg)
      \<and> startswith (str_lower (str_strip l)) x
      \<and> (\<forall>s\<in>set skipped. \<not> isIgnoreAfterLine cfg s \<and> str_strip s \<noteq> [])
      \<and> \<not> isIgnoreAfterLine cfg blank \<and> str_strip blank = []"
  then have hit: "ignore_until_blank_hit cfg l"
    unfolding ignore_until_blank_hit_iff by auto
  from a have sk: "\<forall>s\<in>set skipped. \<not> isIgnoreAfterLine cfg s \<and> str_strip s \<noteq> []" by simp
  show "parse_loop cfg bp st (l # skipped @ blank # rest)
          = (case classify_line bp st l of
               Inl err \<Rightarrow> Inl err
             | Inr st2 \<Rightarrow> parse_loop cfg bp st2 rest)"
  proof (cases "classify_line bp st l")
    case (Inl err)
    with a hit show ?thesis by (simp add: loop_body_hit)
  next
    case (Inr st2)
    from classify_line_keeps_flag[OF Inr] a have f: "\<not> ignore_next_lines st2" by simp
    have "parse_loop cfg bp st (l # skipped @ blank # rest)
        = parse_loop cfg bp (st2\<lparr>ignore_next_lines := True\<rparr>) (skipped @ blank # rest)"
      using a hit Inr by (simp add: loop_body_hit)
    also have "\<dots> = parse_loop cfg bp (st2\<lparr>ignore_next_lines := True\<rparr>) (blank # rest)"
      using sk by (intro parse_loop_skipping) simp_all
    also have "\<dots> = parse_loop cfg bp (st2\<lparr>ignore_next_lines := False\<rparr>) rest"
      using a by (simp add: loop_body_blank)
    also have "st2\<lparr>ignore_next_lines := False\<rparr> = st2" using f by simp
    finally show ?thesis using Inr by simp
  qed
qed

theorem soft_skip_until_blank_witness:
  "parse_loop skip_after_disc_size plain_formatter in_quick_summary
     (''Disc Size: 40,000,000 bytes'' # [''Video: dropped'', ''Audio: dropped'']
        @ ''  '' # [''Video: kept''])
     = Inr (append_video '' kept'' in_quick_summary)
   \<and> loop_body skip_after_disc_size plain_formatter
       (in_quick_summary\<lparr>ignore_next_lines := True\<rparr>) ''Video: dropped''
     = Inr (Next (in_quick_summary\<lparr>ignore_next_lines := True\<rparr>))
   \<and> loop_body skip_after_disc_size plain_formatter
       (in_quick_summary\<lparr>ignore_next_lines := True\<rparr>) ''  ''
     = Inr (Next (in_quick_summary\<lparr>ignore_next_lines := True, ignore_next_lines := False\<rparr>))
   \<and> loop_body skip_after_disc_size plain_formatter in_quick_summary
       ''Disc Size: 40,000,000 bytes''
     = Inr (Next (in_quick_summary\<lparr>ignore_next_lines := True\<rparr>))"
proof -
  let ?cfg = skip_after_disc_size
  let ?l = "''Disc Size: 40,000,000 bytes''"
  have c: "\<not> isIgnoreAfterLine ?cfg ?l" "\<not> isIgnoreAfterLine ?cfg ''Video: dropped''"
    "\<not> isIgnoreAfterLine ?cfg ''  ''"
    by code_simp+
  have nb: "str_strip ?l \<noteq> []" "str_strip ''Video: dropped'' \<noteq> []" by code_simp+
  have bl: "str_strip ''  '' = []" by code_simp
  have f: "\<not> ignore_next_lines in_quick_summary"
    "ignore_next_lines (in_quick_summary\<lparr>ignore_next_lines := True\<rparr>)"
    by (simp_all add: in_quick_summary_def initial_state_def)
  have p: "hd (IGNORE_UNTIL_BLANK_LINE_PREFIXES ?cfg) \<noteq> []"
    "''disc size'' \<in> set (IGNORE_UNTIL_BLANK_LINE_PREFIXES ?cfg)"
    "startswith (str_lower (str_strip ?l)) ''disc size''"
    by code_simp+
  have sk: "\<forall>s\<in>set [''Video: dropped'', ''Audio: dropped''].
      \<not> isIgnoreAfterLine ?cfg s \<and> str_strip s \<noteq> []"
    by code_simp
  have cl: "classify_line plain_formatter in_quick_summary ?l = Inr in_quick_summary"
    by code_simp
  have rest: "parse_loop ?cfg plain_formatter in_quick_summary [''Video: kept'']
      = Inr (append_video '' kept'' in_quick_summary)"
    by code_simp
  note t = soft_skip_until_blank
  note t1 = t [THEN conjunct1, rule_format,
      OF conjI [OF c(1) conjI [OF nb(1) conjI [OF f(1) conjI [OF p(1) conjI [OF p(2) p(3)]]]]],
      of plain_formatter]
  note t2 = t [THEN conjunct2, THEN conjunct1, rule_format,
      OF conjI [OF c(2) conjI [OF nb(2) f(2)]], of plain_formatter]
  note t3 = t [THEN conjunct2, THEN conjunct2, THEN conjunct1, rule_format,
      OF conjI [OF c(3) bl], of plain_formatter "in_quick_summary\<lparr>ignore_next_lines := True\<rparr>"]
  note t4 = t [THEN conjunct2, THEN conjunct2, THEN conjunct2, rule_format,
      OF conjI [OF c(1) conjI [OF nb(1) conjI [OF f(1) conjI [OF p(1) conjI [OF p(2)
        conjI [OF p(3) conjI [OF sk conjI [OF c(3) bl]]]]]]]],
      of plain_formatter "[''Video: kept'']"]
  from t4 have a4: "parse_loop ?cfg plain_formatter in_quick_summary
     (?l # [''Video: dropped'', ''Audio: dropped''] @ ''  '' # [''Video: kept''])
     = Inr (append_video '' kept'' in_quick_summary)"
    unfolding cl using rest by simp
  from t1 have a1: "loop_body ?cfg plain_formatter in_quick_summary ?l
     = Inr (Next (in_quick_summary\<lparr>ignore_next_lines := True\<rparr>))"
    unfolding cl by simp
  from a4 t2 t3 a1 show ?thesis by (intro conjI)
qed

section \<open>Transcoder logs\<close>

lemma determine_section_header:
  "startswith l2 ''eac3to v'' \<Longrightarrow>
     determine_section st l2 =
       st\<lparr>sect := Some EAC3TO_LOG, eac3to := eac3to st @ [[]],
          eac3to_index := eac3to_index st + 1\<rparr>"
  by (simp add: determine_section_def prefix_first_char[of "CHR ''e''"])

lemma determine_section_other:
  "\<not> startswith l2 ''quick summary'' \<Longrightarrow> \<not> startswith l2 ''playlist report'' \<Longrightarrow>
   \<not> startswith l2 ''eac3to v'' \<Longrightarrow> \<not> startswith l2 ''general'' \<Longrightarrow>
     determine_section st l2 = st"
  by (simp add: determine_section_def)

lemma determine_section_done:
  "startswith l2 ''done.'' \<Longrightarrow> determine_section st l2 = st"
  by (simp add: determine_section_def prefix_first_char[of "CHR ''d''"])

lemma header_not_done:
  "startswith (str_lower (str_strip l)) ''eac3to v'' \<Longrightarrow> \<not> startswith l ''Done.''"
  using Done_line_lower[of l] prefix_first_char[of "CHR ''e''" _ "str_lower (str_strip l)" "CHR ''d''"]
  by auto

lemma eac3to_append_last:
  assumes "index_is_last st" "eac3to st \<noteq> []"
  shows "eac3to_append st l
     = Inr (st\<lparr>eac3to := butlast (eac3to st) @ [last (eac3to st) @ [l]]\<rparr>)"
proof -
  obtain ys y where e: "eac3to st = ys @ [y]"
    using assms(2) by (metis append_butlast_last_id)
  have i: "eac3to_index st = int (length ys)"
    using assms(1) e by (simp add: index_is_last_def)
  show ?thesis
    by (simp add: eac3to_append_def Let_def e i)
qed

lemma classify_line_header:
  assumes "startswith (str_lower (str_strip l)) ''eac3to v''" "index_is_last st"
  shows "classify_line bp st l
     = Inr (st\<lparr>sect := Some EAC3TO_LOG, eac3to := eac3to st @ [[l]],
               eac3to_index := eac3to_index st + 1\<rparr>)"
proof -
  let ?d = "st\<lparr>sect := Some EAC3TO_LOG, eac3to := eac3to st @ [[]],
          eac3to_index := eac3to_index st + 1\<rparr>"
  have "index_is_last ?d" "eac3to ?d \<noteq> []"
    using assms(2) by (simp_all add: index_is_last_def)
  from eac3to_append_last[OF this, of l] header_not_done[OF assms(1)]
  show ?thesis
    by (simp add: classify_line_unfold determine_section_header[OF assms(1)]
        eac3to_log_line_def)
qed

lemma classify_line_log_body:
  assumes "sect st = Some EAC3TO_LOG" "index_is_last st" "eac3to st \<noteq> []"
    "\<not> opens_section l" "\<not> startswith l ''Done.''"
  shows "classify_line bp st l
     = Inr (st\<lparr>eac3to := butlast (eac3to st) @ [last (eac3to st) @ [l]]\<rparr>)"
proof -
  have "determine_section st (str_lower (str_strip l)) = st"
    using assms(4) by (intro determine_section_other) (simp_all add: opens_section_def Let_def)
  with assms(1,5) eac3to_append_last[OF assms(2,3), of l] show ?thesis
    by (simp add: classify_line_unfold eac3to_log_line_def)
qed

lemma classify_line_done:
  assumes "sect st = Some EAC3TO_LOG" "startswith l ''Done.''"
  shows "classify_line bp st l = Inr (st\<lparr>sect := None\<rparr>)"
proof -
  have "determine_section st (str_lower (str_strip l)) = st"
    using assms(2) by (intro determine_section_done Done_line_lower)
  with assms show ?thesis
    by (simp add: classify_line_unfold eac3to_log_line_def)
qed

lemma classify_line_leaves_log:
  assumes "classify_line bp st l = Inr st'"
    and "startswith (str_lower (str_strip l)) ''quick summary''
         \<or> startswith (str_lower (str_strip l)) ''playlist report''
         \<or> startswith (str_lower (str_strip l)) ''general''"
  shows "sect st' \<noteq> Some EAC3TO_LOG \<and> eac3to st' = eac3to st"
proof -
  let ?l2 = "str_lower (str_strip l)"
  let ?d = "determine_section st ?l2"
  have d: "sect ?d \<noteq> Some EAC3TO_LOG \<and> eac3to ?d = eac3to st"
    using assms(2)
    by (auto simp: determine_section_def bdinfo_updates prefix_first_char[of "CHR ''g''"])
  show ?thesis
  proof (cases "sect ?d")
    case None
    with assms(1) d show ?thesis by (simp add: classify_line_unfold)
  next
    case (Some x)
    show ?thesis
    proof (cases x)
      case QUICK_SUMMARY
      with Some assms have p: "quick_summary_line bp ?d l ?l2 = Inr st'"
        by (simp add: classify_line_unfold)
      note f = quick_summary_line_frame[OF p, THEN arg_cong]
      from f[of sect] f[of eac3to] d show ?thesis by simp
    next
      case MEDIAINFO
      with Some assms d show ?thesis by (auto simp: classify_line_unfold)
    next
      case PLAYLIST_REPORT
      with Some assms have p: "playlist_report_line bp ?d l ?l2 = Inr st'"
        by (simp add: classify_line_unfold)
      note f = playlist_report_line_frame[OF p, THEN arg_cong]
      from f[of sect] f[of eac3to] d show ?thesis by simp
    next
      case EAC3TO_LOG
      with Some d show ?thesis by simp
    qed
  qed
qed

lemma loop_body_classified:
  "classified cfg l \<Longrightarrow> \<not> ignore_next_lines st \<Longrightarrow>
     loop_body cfg bp st l
       = (case classify_line bp st l of Inl e \<Rightarrow> Inl e | Inr st2 \<Rightarrow> Inr (Next st2))"
  by (simp add: classified_def loop_body_no_hit)

lemma parse_loop_log_body:
  "sect st = Some EAC3TO_LOG \<Longrightarrow> index_is_last st \<Longrightarrow> eac3to st \<noteq> [] \<Longrightarrow>
   \<not> ignore_next_lines st \<Longrightarrow> \<forall>x\<in>set xs. log_body_line cfg x \<Longrightarrow>
   parse_loop cfg bp st (xs @ rest)
     = parse_loop cfg bp (st\<lparr>eac3to := butlast (eac3to st) @ [last (eac3to st) @ xs]\<rparr>) rest"
proof (induction xs arbitrary: st)
  case Nil
  then show ?case by simp
next
  case (Cons x xs)
  let ?st1 = "st\<lparr>eac3to := butlast (eac3to st) @ [last (eac3to st) @ [x]]\<rparr>"
  from Cons.prems have x: "classified cfg x" "\<not> opens_section x" "\<not> startswith x ''Done.''"
    by (simp_all add: log_body_line_def)
  have step: "loop_body cfg bp st x = Inr (Next ?st1)"
    using loop_body_classified[OF x(1) Cons.prems(4)]
      classify_line_log_body[OF Cons.prems(1,2,3) x(2,3)]
    by simp
  have inv: "sect ?st1 = Some EAC3TO_LOG" "index_is_last ?st1" "eac3to ?st1 \<noteq> []"
    "\<not> ignore_next_lines ?st1"
    using Cons.prems by (simp_all add: index_is_last_def)
  have "parse_loop cfg bp st ((x # xs) @ rest) = parse_loop cfg bp ?st1 (xs @ rest)"
    using step by simp
  also have "\<dots> = parse_loop cfg bp
      (?st1\<lparr>eac3to := butlast (eac3to ?st1) @ [last (eac3to ?st1) @ xs]\<rparr>) rest"
    using Cons.prems(5) by (intro Cons.IH inv) simp
  finally show ?case by simp
qed

lemma parse_loop_one_log:
  assumes "index_is_last st" "\<not> ignore_next_lines st"
    "log_header cfg h" "\<forall>x\<in>set xs. log_body_line cfg x" "log_end cfg d"
  shows "parse_loop cfg bp st (h # xs @ d # rest)
     = parse_loop cfg bp
         (st\<lparr>sect := None, eac3to := eac3to st @ [h # xs],
            eac3to_index := eac3to_index st + 1\<rparr>) rest"
proof -
  let ?s1 = "st\<lparr>sect := Some EAC3TO_LOG, eac3to := eac3to st @ [[h]],
               eac3to_index := eac3to_index st + 1\<rparr>"
  let ?s2 = "?s1\<lparr>eac3to := butlast (eac3to ?s1) @ [last (eac3to ?s1) @ xs]\<rparr>"
  from assms(3) have h: "classified cfg h" "startswith (str_lower (str_strip h)) ''eac3to v''"
    by (simp_all add: log_header_def)
  from assms(5) have d: "classified cfg d" "startswith d ''Done.''"
    by (simp_all add: log_end_def)
  have "loop_body cfg bp st h = Inr (Next ?s1)"
    using loop_body_classified[OF h(1) assms(2)] classify_line_header[OF h(2) assms(1)]
    by simp
  then have a1: "parse_loop cfg bp st (h # xs @ d # rest) = parse_loop cfg bp ?s1 (xs @ d # rest)"
    by simp
  have a2: "parse_loop cfg bp ?s1 (xs @ d # rest) = parse_loop cfg bp ?s2 (d # rest)"
    using assms(1,2,4) by (intro parse_loop_log_body) (simp_all add: index_is_last_def)
  have "loop_body cfg bp ?s2 d = Inr (Next (?s2\<lparr>sect := None\<rparr>))"
    using loop_body_classified[OF d(1), of ?s2 bp] assms(2)
      classify_line_done[OF _ d(2), of ?s2 bp]
    by simp
  then have a3: "parse_loop cfg bp ?s2 (d # rest) = parse_loop cfg bp (?s2\<lparr>sect := None\<rparr>) rest"
    by simp
  have eq: "?s2\<lparr>sect := None\<rparr>
      = st\<lparr>sect := None, eac3to := eac3to st @ [h # xs],
            eac3to_index := eac3to_index st + 1\<rparr>"
    by (cases st) simp
  from a1 a2 a3 eq show ?thesis by (simp only:)
qed

lemma classify_line_closed_logs:
  assumes "classify_line bp st l = Inr st'" "sect st \<noteq> Some EAC3TO_LOG" "index_is_last st"
  shows "eac3to st' = eac3to st \<or> eac3to st' = eac3to st @ [[l]]"
proof (cases "startswith (str_lower (str_strip l)) ''eac3to v''")
  case True
  from classify_line_header[OF True assms(3), of bp] assms(1) show ?thesis by auto
next
  case False
  let ?l2 = "str_lower (str_strip l)"
  let ?d = "determine_section st ?l2"
  have d: "sect ?d \<noteq> Some EAC3TO_LOG \<and> eac3to ?d = eac3to st"
    using False assms(2) by (auto simp: determine_section_def bdinfo_updates)
  have "eac3to st' = eac3to st"
  proof (cases "sect ?d")
    case None
    with assms(1) d show ?thesis by (simp add: classify_line_unfold)
  next
    case (Some x)
    show ?thesis
    proof (cases x)
      case QUICK_SUMMARY
      with Some assms have p: "quick_summary_line bp ?d l ?l2 = Inr st'"
        by (simp add: classify_line_unfold)
      note f = quick_summary_line_frame[OF p, THEN arg_cong]
      from f[of eac3to] d show ?thesis by simp
    next
      case MEDIAINFO
      with Some assms d show ?thesis by (auto simp: classify_line_unfold)
    next
      case PLAYLIST_REPORT
      with Some assms have p: "playlist_report_line bp ?d l ?l2 = Inr st'"
        by (simp add: classify_line_unfold)
      note f = playlist_report_line_frame[OF p, THEN arg_cong]
      from f[of eac3to] d show ?thesis by simp
    next
      case EAC3TO_LOG
      with Some d show ?thesis by simp
    qed
  qed
  then show ?thesis by simp
qed

text \<open>
  The two conditions on the state that the log properties use hold in the initial state
  and are kept by the loop body, so they hold in every state that the loop reaches.
\<close>

lemma classify_line_log_lengths:
  assumes "classify_line bp st l = Inr st'"
  shows "int (length (eac3to st')) - eac3to_index st'
           = int (length (eac3to st)) - eac3to_index st
         \<and> length (eac3to st) \<le> length (eac3to st')
         \<and> (sect st' = Some EAC3TO_LOG \<longrightarrow>
              sect (determine_section st (str_lower (str_strip l))) = Some EAC3TO_LOG)"
proof -
  let ?l2 = "str_lower (str_strip l)"
  let ?d = "determine_section st ?l2"
  have d: "int (length (eac3to ?d)) - eac3to_index ?d = int (length (eac3to st)) - eac3to_index st
      \<and> length (eac3to st) \<le> length (eac3to ?d)"
    by (simp add: determine_section_def bdinfo_updates)
  have "int (length (eac3to st')) - eac3to_index st' = int (length (eac3to ?d)) - eac3to_index ?d
      \<and> length (eac3to ?d) \<le> length (eac3to st')
      \<and> (sect st' = Some EAC3TO_LOG \<longrightarrow> sect ?d = Some EAC3TO_LOG)"
  proof (cases "sect ?d")
    case None
    with assms show ?thesis by (simp add: classify_line_unfold)
  next
    case (Some x)
    show ?thesis
    proof (cases x)
      case QUICK_SUMMARY
      with Some assms have p: "quick_summary_line bp ?d l ?l2 = Inr st'"
        by (simp add: classify_line_unfold)
      note f = quick_summary_line_frame[OF p, THEN arg_cong]
      from f[of eac3to] f[of eac3to_index] f[of sect] Some QUICK_SUMMARY show ?thesis by simp
    next
      case MEDIAINFO
      with Some assms show ?thesis by (auto simp: classify_line_unfold)
    next
      case PLAYLIST_REPORT
      with Some assms have p: "playlist_report_line bp ?d l ?l2 = Inr st'"
        by (simp add: classify_line_unfold)
      note f = playlist_report_line_frame[OF p, THEN arg_cong]
      from f[of eac3to] f[of eac3to_index] f[of sect] Some PLAYLIST_REPORT show ?thesis by simp
    next
      case EAC3TO_LOG
      with Some assms have p: "eac3to_log_line ?d l = Inr st'"
        by (simp add: classify_line_unfold)
      then show ?thesis using Some EAC3TO_LOG
        by (auto simp: eac3to_log_line_def eac3to_append_def Let_def split: if_splits)
    qed
  qed
  with d show ?thesis by simp
qed

lemma classify_line_log_invariant:
  assumes "classify_line bp st l = Inr st'" "index_is_last st"
    "sect st = Some EAC3TO_LOG \<longrightarrow> eac3to st \<noteq> []"
  shows "index_is_last st' \<and> (sect st' = Some EAC3TO_LOG \<longrightarrow> eac3to st' \<noteq> [])"
proof -
  note n = classify_line_log_lengths[OF assms(1)]
  from n assms(2) have i: "index_is_last st'" by (simp add: index_is_last_def)
  have "eac3to st' \<noteq> []" if s: "sect st' = Some EAC3TO_LOG"
  proof -
    let ?d = "determine_section st (str_lower (str_strip l))"
    from n s have e: "sect ?d = Some EAC3TO_LOG" by simp
    have "eac3to ?d \<noteq> []"
      using e assms(3) by (auto simp: determine_section_def bdinfo_updates split: if_splits)
    moreover have "length (eac3to ?d) \<le> length (eac3to st')"
    proof -
      from e assms(1) have p: "eac3to_log_line ?d l = Inr st'"
        by (simp add: classify_line_unfold)
      then show ?thesis
        by (auto simp: eac3to_log_line_def eac3to_append_def Let_def split: if_splits)
    qed
    ultimately show ?thesis by auto
  qed
  with i show ?thesis by simp
qed

lemma loop_body_log_invariant:
  assumes "loop_body cfg bp st l = Inr (Next st')" "index_is_last st"
    "sect st = Some EAC3TO_LOG \<longrightarrow> eac3to st \<noteq> []"
  shows "index_is_last st' \<and> (sect st' = Some EAC3TO_LOG \<longrightarrow> eac3to st' \<noteq> [])"
  using assms(1)
proof (cases rule: loop_body_cases)
  case blank
  with assms(2,3) show ?thesis by (simp add: index_is_last_def)
next
  case skip
  with assms(2,3) show ?thesis by simp
next
  case hit
  from classify_line_log_invariant[OF hit] assms(2,3) show ?thesis
    by (simp add: index_is_last_def)
next
  case plain
  from classify_line_log_invariant[OF plain assms(2,3)] show ?thesis .
qed

lemma initial_state_log_invariant:
  "index_is_last initial_state \<and> sect initial_state \<noteq> Some EAC3TO_LOG"
  by (simp add: index_is_last_def initial_state_def)

text \<open>
  Claim C3, as stated, fails: a log is also closed by a line that opens another
  section.  Here no line begins with \<open>Done.\<close>, and yet the last line is not added
  to the log.
\<close>

theorem log_closed_by_other_section:
  "parse_lines no_truncation plain_formatter
     [''eac3to v3.34: 1.thd 1.ac3'', ''Creating file...'', ''Quick Summary:'',
      ''still part of the log?'']
   = Inr (\<lparr>video = [], audio = [], subtitle = [], bd_type = Some BD_QUICK_SUMMARY\<rparr>,
          [],
          [[''eac3to v3.34: 1.thd 1.ac3'', ''Creating file...'']])"
  by code_simp

text \<open>
  Claim C3, amended.  For classified lines, with \<open>eac3to_index\<close> at the last log:
  a header line appends a new log that holds the header; while the section is the log,
  a line that neither opens a section nor begins with \<open>Done.\<close> is added to the last
  log; a line beginning with \<open>Done.\<close> sets the section to \<open>None\<close> and adds nothing;
  a line starting with \<open>quick summary\<close>, \<open>playlist report\<close> or \<open>general\<close>
  leaves the log section and the logs as they are; outside the log section the logs
  are unchanged or extended by a new one, so a closed log receives nothing more.  Two
  headers, each followed by body lines and its own \<open>Done.\<close> line, yield two logs,
  each holding its header and its own body lines.
\<close>

theorem transcoder_logs_isolated:
  "(startswith (str_lower (str_strip l)) ''eac3to v'' \<and> index_is_last st
      \<longrightarrow> classify_line bp st l
            = Inr (st\<lparr>sect := Some EAC3TO_LOG, eac3to := eac3to st @ [[l]],
                      eac3to_index := eac3to_index st + 1\<rparr>))
   \<and> (sect st = Some EAC3TO_LOG \<and> index_is_last st \<and> eac3to st \<noteq> []
        \<and> \<not> opens_section l \<and> \<not> startswith l ''Done.''
      \<longrightarrow> classify_line bp st l
            = Inr (st\<lparr>eac3to := butlast (eac3to st) @ [last (eac3to st) @ [l]]\<rparr>))
   \<and> (sect st = Some EAC3TO_LOG \<and> startswith l ''Done.''
      \<longrightarrow> classify_line bp st l = Inr (st\<lparr>sect := None\<rparr>))
   \<and> (classify_line bp st l = Inr st'
        \<and> (startswith (str_lower (str_strip l)) ''quick summary''
            \<or> startswith (str_lower (str_strip l)) ''playlist report''
            \<or> startswith (str_lower (str_strip l)) ''general'')
      \<longrightarrow> sect st' \<noteq> Some EAC3TO_LOG \<and> eac3to st' = eac3to st)
   \<and> (classify_line bp st l = Inr st' \<and> sect st \<noteq> Some EAC3TO_LOG \<and> index_is_last st
      \<longrightarrow> eac3to st' = eac3to st \<or> eac3to st' = eac3to st @ [[l]])
   \<and> (index_is_last st \<and> \<not> ignore_next_lines st
        \<and> log_header cfg h1 \<and> (\<forall>x\<in>set xs. log_body_line cfg x) \<and> log_end cfg d1
        \<and> log_header cfg h2 \<and> (\<forall>y\<in>set ys. log_body_line cfg y) \<and> log_end cfg d2
      \<longrightarrow> parse_loop cfg bp st (h1 # xs @ d1 # h2 # ys @ d2 # rest)
            = parse_loop cfg bp
                (st\<lparr>sect := None, eac3to := eac3to st @ [h1 # xs, h2 # ys],
                    eac3to_index := eac3to_index st + 2\<rparr>) rest)"
proof (intro conjI impI)
  assume "startswith (str_lower (str_strip l)) ''eac3to v'' \<and> index_is_last st"
  then show "classify_line bp st l
            = Inr (st\<lparr>sect := Some EAC3TO_LOG, eac3to := eac3to st @ [[l]],
                      eac3to_index := eac3to_index st + 1\<rparr>)"
    by (simp add: classify_line_header)
next
  assume "sect st = Some EAC3TO_LOG \<and> index_is_last st \<and> eac3to st \<noteq> []
        \<and> \<not> opens_section l \<and> \<not> startswith l ''Done.''"
  then show "classify_line bp st l
            = Inr (st\<lparr>eac3to := butlast (eac3to st) @ [last (eac3to st) @ [l]]\<rparr>)"
    by (simp add: classify_line_log_body)
next
  assume "sect st = Some EAC3TO_LOG \<and> startswith l ''Done.''"
  then show "classify_line bp st l = Inr (st\<lparr>sect := None\<rparr>)"
    by (simp add: classify_line_done)
next
  assume a: "classify_line bp st l = Inr st'
        \<and> (startswith (str_lower (str_strip l)) ''quick summary''
            \<or> startswith (str_lower (str_strip l)) ''playlist report''
            \<or> startswith (str_lower (str_strip l)) ''general'')"
  from classify_line_leaves_log[of bp st l st'] a
  show "sect st' \<noteq> Some EAC3TO_LOG" "eac3to st' = eac3to st" by blast+
next
  assume "classify_line bp st l = Inr st' \<and> sect st \<noteq> Some EAC3TO_LOG \<and> index_is_last st"
  then show "eac3to st' = eac3to st \<or> eac3to st' = eac3to st @ [[l]]"
    using classify_line_closed_logs by blast
next
  assume a: "index_is_last st \<and> \<not> ignore_next_lines st
        \<and> log_header cfg h1 \<and> (\<forall>x\<in>set xs. log_body_line cfg x) \<and> log_end cfg d1
        \<and> log_header cfg h2 \<and> (\<forall>y\<in>set ys. log_body_line cfg y) \<and> log_end cfg d2"
  let ?s1 = "st\<lparr>sect := None, eac3to := eac3to st @ [h1 # xs],
            eac3to_index := eac3to_index st + 1\<rparr>"
  from a have i1: "index_is_last ?s1" "\<not> ignore_next_lines ?s1"
    by (simp_all add: index_is_last_def)
  have b1: "parse_loop cfg bp st (h1 # xs @ d1 # h2 # ys @ d2 # rest)
      = parse_loop cfg bp ?s1 (h2 # ys @ d2 # rest)"
    using a by (intro parse_loop_one_log) simp_all
  have b2: "parse_loop cfg bp ?s1 (h2 # ys @ d2 # rest)
      = parse_loop cfg bp
          (?s1\<lparr>sect := None, eac3to := eac3to ?s1 @ [h2 # ys],
               eac3to_index := eac3to_index ?s1 + 1\<rparr>) rest"
    using a i1 by (intro parse_loop_one_log) simp_all
  have eq: "?s1\<lparr>sect := None, eac3to := eac3to ?s1 @ [h2 # ys],
               eac3to_index := eac3to_index ?s1 + 1\<rparr>
      = st\<lparr>sect := None, eac3to := eac3to st @ [h1 # xs, h2 # ys],
            eac3to_index := eac3to_index st + 2\<rparr>"
    by (cases st) simp
  from b1 b2 eq
  show "parse_loop cfg bp st (h1 # xs @ d1 # h2 # ys @ d2 # rest)
            = parse_loop cfg bp
                (st\<lparr>sect := None, eac3to := eac3to st @ [h1 # xs, h2 # ys],
                    eac3to_index := eac3to_index st + 2\<rparr>) rest"
    by (simp only:)
qed

theorem transcoder_logs_isolated_witness:
  "parse_lines no_truncation plain_formatter
     (''eac3to v3.34: 1.thd 1.ac3'' # [''Decoding...'', ''Encoding...'']
        @ ''Done.'' # ''EAC3TO V3.34: 2.dts 2.flac'' # [''Extracting...'']
        @ ''Done.'' # [''trailing text''])
   = Inr (\<lparr>video = [], audio = [], subtitle = [], bd_type = None\<rparr>,
          [],
          [[''eac3to v3.34: 1.thd 1.ac3'', ''Decoding...'', ''Encoding...''],
           [''EAC3TO V3.34: 2.dts 2.flac'', ''Extracting...'']])"
proof -
  have i: "index_is_last initial_state" "\<not> ignore_next_lines initial_state"
    by (simp_all add: index_is_last_def initial_state_def)
  have h1: "log_header no_truncation ''eac3to v3.34: 1.thd 1.ac3''" by code_simp
  have xs: "\<forall>x\<in>set [''Decoding...'', ''Encoding...'']. log_body_line no_truncation x"
    by code_simp
  have d: "log_end no_truncation ''Done.''" by code_simp
  have h2: "log_header no_truncation ''EAC3TO V3.34: 2.dts 2.flac''" by code_simp
  have ys: "\<forall>y\<in>set [''Extracting...'']. log_body_line no_truncation y"
    by code_simp
  note t = transcoder_logs_isolated [THEN conjunct2, THEN conjunct2, THEN conjunct2,
      THEN conjunct2, THEN conjunct2, rule_format,
      OF conjI [OF i(1) conjI [OF i(2) conjI [OF h1 conjI [OF xs conjI [OF d
         conjI [OF h2 conjI [OF ys d]]]]]]]]
  have r: "parse_loop no_truncation plain_formatter
      (initial_state\<lparr>sect := None,
         eac3to := eac3to initial_state
           @ [''eac3to v3.34: 1.thd 1.ac3'' # [''Decoding...'', ''Encoding...''],
              ''EAC3TO V3.34: 2.dts 2.flac'' # [''Extracting...'']],
         eac3to_index := eac3to_index initial_state + 2\<rparr>) [''trailing text'']
    = Inr (initial_state\<lparr>sect := None,
         eac3to := eac3to initial_state
           @ [''eac3to v3.34: 1.thd 1.ac3'' # [''Decoding...'', ''Encoding...''],
              ''EAC3TO V3.34: 2.dts 2.flac'' # [''Extracting...'']],
         eac3to_index := eac3to_index initial_state + 2\<rparr>)"
    by code_simp
  show ?thesis
    unfolding parse_lines_def t [of plain_formatter "[''trailing text'']"] r
    by (simp add: initial_state_def)
qed

section \<open>Compatibility tracks\<close>

lemma determine_section_audio:
  "startswith l2 ''audio:'' \<Longrightarrow> determine_section st l2 = st"
  by (simp add: determine_section_def prefix_first_char[of "CHR ''a''"])

lemma quick_summary_compat:
  assumes "startswith l2 ''audio:''" "CHR '':'' \<in> set l"
    and "str_strip (tl (dropWhile (\<lambda>c. c \<noteq> CHR '':'') l)) = pre @ m @ post"
    and "str_lower m = ''(ac3 embedded:''"
    and "\<forall>i<length pre. \<not> startswith (str_lower (drop i (pre @ m @ post))) ''(ac3 embedded:''"
  shows "quick_summary_line bp st l l2
     = Inr (append_audio
              (format_track_name bp
                 (compat_prefix @ str_rstrip_chars '')'' (str_strip (hd (re_split_ac3 post)))))
              (append_audio (format_track_name bp pre) st))"
proof -
  have v: "\<not> startswith l2 ''video:''"
    using assms(1) prefix_first_char[of "CHR ''a''" _ l2 "CHR ''v''"] by auto
  have ac: "after_colon l = Inr (tl (dropWhile (\<lambda>c. c \<noteq> CHR '':'') l))"
    using assms(2) by (rule after_colon_ok)
  have c: "str_contains ''ac3 embedded'' (str_lower (pre @ m @ post))"
    using assms(4) by (rule lower_marker)
  have s: "re_split_ac3 (pre @ m @ post) = pre # re_split_ac3 post"
    unfolding re_split_ac3_def ac3_pattern_def
    using re_split_ci_first[of "''(ac3 embedded:''" m pre post "[]"] assms(4,5) by simp
  obtain q qs where q: "re_split_ac3 post = q # qs"
    using re_split_ci_nonempty[of ac3_pattern "[]" post]
    by (cases "re_split_ac3 post") (auto simp: re_split_ac3_def)
  show ?thesis
    using assms(1) v ac c
    by (simp add: quick_summary_line_def Let_def assms(3) s q py_nth_def)
qed

text \<open>
  Claim C2, as stated, fails on its own example: the second entry is the literal
  prefix followed by the whole text after the marker, so it continues with
  \<open>Dolby Digital Audio 2.0\<close> and does not begin as the claim says.
\<close>

theorem compat_example_second_entry:
  "parse no_truncation plain_formatter (''Quick Summary'' @ [CHR 0x0A] @ compat_example_line)
     = Inr (\<lparr>video = [],
             audio = [''DTS-HD Master Audio 5.1 '',
                      ''Compatibility Track / Dolby Digital Audio / Dolby Digital Audio 2.0 / 48 kHz / 192 kbps''],
             subtitle = [],
             bd_type = Some BD_QUICK_SUMMARY\<rparr>, [], [])
   \<and> \<not> startswith
         ''Compatibility Track / Dolby Digital Audio / Dolby Digital Audio 2.0 / 48 kHz / 192 kbps''
         ''Compatibility Track / Dolby Digital Audio / 48 kHz / 192 kbps''"
  by code_simp

text \<open>
  Claim C2, amended.  The marker is \<open>(ac3 embedded:\<close>, with the parenthesis and the
  colon, in any case.  For a Quick Summary line that reaches classification, starts
  with \<open>audio:\<close> and whose trimmed text after the first colon is
  \<open>pre @ m @ post\<close> with \<open>m\<close> the first match of the marker, exactly two entries
  are appended to the audio list: the formatted \<open>pre\<close>, then the formatted literal
  prefix followed by the text between the marker and the next match (all of \<open>post\<close>
  when there is none), trimmed and with every trailing \<open>)\<close> removed.
\<close>

theorem compat_track_split:
  assumes "\<not> isIgnoreAfterLine cfg l" and "\<not> ignore_next_lines st"
    and "sect st = Some QUICK_SUMMARY"
    and "startswith (str_lower (str_strip l)) ''audio:''"
    and "str_strip (tl (dropWhile (\<lambda>c. c \<noteq> CHR '':'') l)) = pre @ m @ post"
    and "str_lower m = ''(ac3 embedded:''"
    and "\<forall>i<length pre. \<not> startswith (str_lower (drop i (pre @ m @ post))) ''(ac3 embedded:''"
  shows "loop_body cfg bp st l
     = Inr (Next (append_audio
              (format_track_name bp
                 (compat_prefix @ str_rstrip_chars '')'' (str_strip (hd (re_split_ac3 post)))))
              (append_audio (format_track_name bp pre)
                 (st\<lparr>ignore_next_lines := ignore_until_blank_hit cfg l\<rparr>))))
     \<and> ((\<forall>i<length post. \<not> startswith (str_lower (drop i post)) ''(ac3 embedded:'')
          \<longrightarrow> hd (re_split_ac3 post) = post)"
proof
  let ?l2 = "str_lower (str_strip l)"
  let ?st1 = "st\<lparr>ignore_next_lines := ignore_until_blank_hit cfg l\<rparr>"
  have nb: "str_strip l \<noteq> []"
    using assms(4) by (auto simp: str_lower_def)
  have col: "CHR '':'' \<in> set l"
    using colon_in_line[of "''audio''" l] assms(4) by simp
  have d: "determine_section ?st1 ?l2 = ?st1"
    using assms(4) by (rule determine_section_audio)
  have c: "classify_line bp ?st1 l = quick_summary_line bp ?st1 l ?l2"
    using assms(3) by (simp add: classify_line_unfold d)
  have b: "loop_body cfg bp st l
      = (case classify_line bp ?st1 l of Inl e \<Rightarrow> Inl e | Inr st2 \<Rightarrow> Inr (Next st2))"
  proof (cases "ignore_until_blank_hit cfg l")
    case True
    with assms(1,2) nb show ?thesis by (simp add: loop_body_def)
  next
    case False
    with assms(2) have e: "?st1 = st" by simp
    show ?thesis unfolding e using assms(1,2) nb False by (simp add: loop_body_def)
  qed
  show "loop_body cfg bp st l
     = Inr (Next (append_audio
              (format_track_name bp
                 (compat_prefix @ str_rstrip_chars '')'' (str_strip (hd (re_split_ac3 post)))))
              (append_audio (format_track_name bp pre) ?st1)))"
    unfolding b c quick_summary_compat[OF assms(4) col assms(5,6,7)] by simp
  show "(\<forall>i<length post. \<not> startswith (str_lower (drop i post)) ''(ac3 embedded:'')
          \<longrightarrow> hd (re_split_ac3 post) = post"
    using re_split_ci_none[of post "''(ac3 embedded:''" "[]"]
    by (simp add: re_split_ac3_def ac3_pattern_def)
qed

theorem compat_track_split_witness:
  "loop_body no_truncation plain_formatter in_quick_summary compat_example_line
     = Inr (Next (append_audio
         ''Compatibility Track / Dolby Digital Audio / Dolby Digital Audio 2.0 / 48 kHz / 192 kbps''
         (append_audio ''DTS-HD Master Audio 5.1 '' in_quick_summary)))"
proof -
  let ?pre = "''DTS-HD Master Audio 5.1 ''"
  let ?m = "''(ac3 embedded:''"
  let ?post = "'' Dolby Digital Audio 2.0 / 48 kHz / 192 kbps)''"
  have h1: "\<not> isIgnoreAfterLine no_truncation compat_example_line" by code_simp
  have h2: "\<not> ignore_next_lines in_quick_summary"
    by (simp add: in_quick_summary_def initial_state_def)
  have h3: "sect in_quick_summary = Some QUICK_SUMMARY"
    by (simp add: in_quick_summary_def)
  have h4: "startswith (str_lower (str_strip compat_example_line)) ''audio:''" by code_simp
  have h5: "str_strip (tl (dropWhile (\<lambda>c. c \<noteq> CHR '':'') compat_example_line))
      = ?pre @ ?m @ ?post" by code_simp
  have h6: "str_lower ?m = ''(ac3 embedded:''" by code_simp
  have "list_all (\<lambda>i. \<not> startswith (str_lower (drop i (?pre @ ?m @ ?post))) ''(ac3 embedded:'')
      [0..<length ?pre]" by code_simp
  then have h7: "\<forall>i<length ?pre.
      \<not> startswith (str_lower (drop i (?pre @ ?m @ ?post))) ''(ac3 embedded:''"
    unfolding list_all_iff by (metis atLeastLessThan_iff le0 set_upt)
  note t = compat_track_split [OF h1 h2 h3 h4 h5 h6 h7, of plain_formatter, THEN conjunct1]
  have e: "append_audio
       (format_track_name plain_formatter
          (compat_prefix @ str_rstrip_chars '')'' (str_strip (hd (re_split_ac3 ?post)))))
       (append_audio (format_track_name plain_formatter ?pre)
          (in_quick_summary
             \<lparr>ignore_next_lines := ignore_until_blank_hit no_truncation compat_example_line\<rparr>))
     = append_audio
         ''Compatibility Track / Dolby Digital Audio / Dolby Digital Audio 2.0 / 48 kHz / 192 kbps''
         (append_audio ''DTS-HD Master Audio 5.1 '' in_quick_summary)"
    by code_simp
  from t e show ?thesis by (simp only:)
qed

end
